theory Spec2Isabelle
  imports Main "HOL-Library.Char_ord" "HOL-Library.List_Lexorder" "HOL-Library.Sublist"
begin

section \<open>Data model of \<open>paper_explorer.py\<close>\<close>

text \<open>
  Python strings are modelled as \<open>string\<close>; their comparison (used by \<open>sorted\<close>) is the
  lexicographic order on the characters' codes, which is the order that
  \<open>Char_ord\<close> and \<open>List_Lexorder\<close> put on \<open>char list\<close>.

  A key of a JSON object is absent, present with the value \<open>null\<close>, or present with a
  value. Python's \<open>d.get(k)\<close> returns \<open>None\<close> in the first two cases;
  \<open>d.get(k, default)\<close> returns the default only when the key is absent.
\<close>

datatype 'a field = Absent | Null | Val 'a

fun dict_get :: "'a field \<Rightarrow> 'a option" where
  "dict_get Absent = None"
| "dict_get Null = None"
| "dict_get (Val v) = Some v"

fun dict_get_default :: "'a field \<Rightarrow> 'a \<Rightarrow> 'a option" where
  "dict_get_default Absent d = Some d"
| "dict_get_default Null d = None"
| "dict_get_default (Val v) d = Some v"

text \<open>
  The provider's payload, with the keys the program reads. An entry of a reference or
  citation list has the metadata keys; the top-level payload has the two lists as well.
  An author is an object whose only key read is \<open>name\<close>.
\<close>

record entry_data =
  json_paperId :: "string field"
  json_title :: "string field"
  json_authors :: "string field list field"
  json_year :: "int field"
  json_publicationDate :: "string field"
  json_citationCount :: "int field"
  json_url :: "string field"

record paper_data = entry_data +
  json_references :: "entry_data list field"
  json_citations :: "entry_data list field"

text \<open>The dataclass \<open>Paper\<close>. Optional values are the ones \<open>dict.get\<close> can return as \<open>None\<close>.\<close>

record Paper =
  paper_id :: string
  title :: "string option"
  authors :: "string option list"
  year :: "int option"
  publication_date :: "string option"
  citation_count :: "int option"
  url :: string
  references :: "string list"
  citations :: "string list"
  edge_count :: int
  is_main :: bool

text \<open>The dictionary built by \<open>paper_to_dict\<close>.\<close>

record paper_dict =
  dict_paper_id :: string
  dict_title :: "string option"
  dict_authors :: "string option list"
  dict_year :: "int option"
  dict_publication_date :: "string option"
  dict_citation_count :: "int option"
  dict_url :: string
  dict_edge_count :: int
  dict_is_main :: bool
  dict_reference_count :: nat
  dict_citing_count :: nat

text \<open>The \<open>result\<close> dictionary of \<open>process_main_paper\<close>.\<close>

record result =
  success :: bool
  message :: string
  paper :: "paper_dict option"
  new_papers :: int
  new_edges :: int

text \<open>
  The exceptions the program can raise on a payload of this shape: iterating
  \<open>authors\<close> when it is \<open>null\<close>, and indexing \<open>papers_db\<close> with a key it does not hold.
\<close>

datatype error = TypeError | KeyError string

text \<open>
  The outside world: \<open>requests.get\<close> either raises \<open>RequestException\<close> or returns a
  response with a status code and a body. The network is a function of the requests
  issued so far and of the requested URL, so that a retry may be answered differently.
\<close>

datatype http_response = Response int paper_data | RequestException

type_synonym network = "string list \<Rightarrow> string \<Rightarrow> http_response"

text \<open>
  The global state: \<open>papers_db\<close>, \<open>edges\<close>, and the URLs requested from the provider so
  far (the trace of \<open>requests.get\<close> calls).
\<close>

record state =
  papers_db :: "string \<rightharpoonup> Paper"
  edges :: "(string \<times> string) set"
  requests :: "string list"

definition initial_state :: state where
  "initial_state = \<lparr>papers_db = Map.empty, edges = {}, requests = []\<rparr>"

section \<open>The functions\<close>

definition base_url :: string where
  "base_url = ''https://api.semanticscholar.org/graph/v1/paper''"

definition fields :: string where
  "fields = ''paperId,title,authors,year,publicationDate,citationCount,url,references.paperId,references.title,references.authors,references.year,references.publicationDate,references.citationCount,references.url,citations.paperId,citations.title,citations.authors,citations.year,citations.publicationDate,citations.citationCount,citations.url''"

definition fetch_url :: "string \<Rightarrow> string" where
  "fetch_url pid = base_url @ ''/'' @ pid @ ''?fields='' @ fields"

text \<open>
  \<open>fetch_paper_from_semantic_scholar\<close>: one request; on status 429 one more. Returns the
  body on status 200 and \<open>None\<close> otherwise, with the extended trace of requests.
\<close>

definition fetch_paper_from_semantic_scholar ::
  "network \<Rightarrow> string \<Rightarrow> string list \<Rightarrow> paper_data option \<times> string list" where
  "fetch_paper_from_semantic_scholar net pid log =
     (let u = fetch_url pid in
      case net log u of
        RequestException \<Rightarrow> (None, log @ [u])
      | Response status_code body \<Rightarrow>
          if status_code = 200 then (Some body, log @ [u])
          else if status_code = 429 then
            (case net (log @ [u]) u of
               RequestException \<Rightarrow> (None, log @ [u, u])
             | Response status_code2 body2 \<Rightarrow>
                 if status_code2 = 200 then (Some body2, log @ [u, u])
                 else (None, log @ [u, u]))
          else (None, log @ [u]))"

text \<open>Python's truth value of \<open>dict.get(key)\<close> for a string: \<open>None\<close> and \<open>''\<close> are false.\<close>

fun truthy :: "string option \<Rightarrow> bool" where
  "truthy None = False"
| "truthy (Some s) = (s \<noteq> [])"

text \<open>\<open>not paper_data\<close> for a payload: true for the empty object.\<close>

definition empty_dict :: "paper_data \<Rightarrow> bool" where
  "empty_dict d \<longleftrightarrow>
     json_paperId d = Absent \<and> json_title d = Absent \<and> json_authors d = Absent \<and>
     json_year d = Absent \<and> json_publicationDate d = Absent \<and>
     json_citationCount d = Absent \<and> json_url d = Absent \<and>
     json_references d = Absent \<and> json_citations d = Absent"

text \<open>
  The \<open>Paper\<close> object that \<open>add_paper_to_db\<close> builds from a payload whose identifier is
  \<open>pid\<close> and whose author names have been read into \<open>names\<close>.
\<close>

definition build_paper :: "'a entry_data_scheme \<Rightarrow> string \<Rightarrow> string option list \<Rightarrow> bool \<Rightarrow> Paper" where
  "build_paper d pid names as_main =
     \<lparr>paper_id = pid,
      title = dict_get_default (json_title d) ''Unknown Title'',
      authors = take 5 names,
      year = dict_get (json_year d),
      publication_date = dict_get (json_publicationDate d),
      citation_count = dict_get_default (json_citationCount d) 0,
      url = (if truthy (dict_get (json_url d)) then the (dict_get (json_url d))
             else ''https://www.semanticscholar.org/paper/'' @ pid),
      references = [],
      citations = [],
      edge_count = 0,
      is_main = as_main\<rparr>"

text \<open>
  \<open>add_paper_to_db\<close>. The result is the exception raised, or the key of the returned
  \<open>Paper\<close> object in \<open>papers_db\<close> (\<open>None\<close> for the return value \<open>None\<close>) with the new
  \<open>papers_db\<close>. The returned object is always the one stored under that key.
\<close>

definition add_paper_to_db ::
  "'a entry_data_scheme \<Rightarrow> bool \<Rightarrow> (string \<rightharpoonup> Paper) \<Rightarrow> error + (string option \<times> (string \<rightharpoonup> Paper))" where
  "add_paper_to_db d as_main db =
     (if \<not> truthy (dict_get (json_paperId d)) then Inr (None, db)
      else
        let pid = the (dict_get (json_paperId d)) in
        case dict_get_default (json_authors d) [] of
          None \<Rightarrow> Inl TypeError
        | Some as \<Rightarrow>
            (let names = map (\<lambda>a. dict_get_default a ''Unknown'') as;
                 p = build_paper d pid names as_main
             in (case db pid of
                   Some old \<Rightarrow>
                     if as_main then Inr (Some pid, db(pid \<mapsto> old\<lparr>is_main := True\<rparr>))
                     else Inr (Some pid, db)
                 | None \<Rightarrow> Inr (Some pid, db(pid \<mapsto> p)))))"

definition paper_to_dict :: "Paper \<Rightarrow> paper_dict" where
  "paper_to_dict p =
     \<lparr>dict_paper_id = paper_id p,
      dict_title = title p,
      dict_authors = authors p,
      dict_year = year p,
      dict_publication_date = publication_date p,
      dict_citation_count = citation_count p,
      dict_url = url p,
      dict_edge_count = edge_count p,
      dict_is_main = is_main p,
      dict_reference_count = length (references p),
      dict_citing_count = length (citations p)\<rparr>"

text \<open>\<open>tuple(sorted([a, b]))\<close>: the stable sort swaps the two only when \<open>b < a\<close>.\<close>

definition sorted_pair :: "string \<Rightarrow> string \<Rightarrow> string \<times> string" where
  "sorted_pair a b = (if b < a then (b, a) else (a, b))"

text \<open>
  The state of a loop of \<open>process_main_paper\<close>: \<open>papers_db\<close>, \<open>edges\<close>, \<open>new_papers\<close> and
  \<open>new_edges\<close>.
\<close>

type_synonym loop_state = "(string \<rightharpoonup> Paper) \<times> (string \<times> string) set \<times> int \<times> int"

text \<open>
  The body of the two loops of \<open>process_main_paper\<close>, which differ only in the list of
  the main paper they append to (\<open>app\<close>). \<open>pid\<close> is the argument \<open>paper_id\<close> of
  \<open>process_main_paper\<close>, \<open>main_key\<close> the key of the object \<open>main_paper\<close>. The result is the
  exception raised, if any, with the state at that moment.
\<close>

definition process_entry ::
  "(string \<Rightarrow> Paper \<Rightarrow> Paper) \<Rightarrow> string \<Rightarrow> string \<Rightarrow> entry_data \<Rightarrow> loop_state \<Rightarrow> error option \<times> loop_state" where
  "process_entry app pid main_key ref st =
     (case st of (db, es, np, ne) \<Rightarrow>
      if \<not> truthy (dict_get (json_paperId ref)) then (None, st)
      else
        let ref_id = the (dict_get (json_paperId ref));
            db1 = (case db main_key of None \<Rightarrow> db | Some m \<Rightarrow> db(main_key \<mapsto> app ref_id m))
        in (case (if db1 ref_id = None
                  then (case add_paper_to_db ref False db1 of
                          Inl e \<Rightarrow> Inl e
                        | Inr (r, db2) \<Rightarrow> Inr (db2, np + 1))
                  else Inr (db1, np)) of
              Inl e \<Rightarrow> (Some e, (db1, es, np, ne))
            | Inr (db2, np2) \<Rightarrow>
                (let edge = sorted_pair pid ref_id in
                 if edge \<in> es then (None, (db2, es, np2, ne))
                 else
                   (case db2 pid of
                      None \<Rightarrow> (Some (KeyError pid), (db2, insert edge es, np2, ne + 1))
                    | Some p \<Rightarrow>
                        (let db3 = db2(pid \<mapsto> p\<lparr>edge_count := edge_count p + 1\<rparr>) in
                         (case db3 ref_id of
                            None \<Rightarrow> (Some (KeyError ref_id), (db3, insert edge es, np2, ne + 1))
                          | Some q \<Rightarrow>
                              (None, (db3(ref_id \<mapsto> q\<lparr>edge_count := edge_count q + 1\<rparr>),
                                      insert edge es, np2, ne + 1))))))))"

fun process_entries ::
  "(string \<Rightarrow> Paper \<Rightarrow> Paper) \<Rightarrow> string \<Rightarrow> string \<Rightarrow> entry_data list \<Rightarrow> loop_state \<Rightarrow> error option \<times> loop_state" where
  "process_entries app pid main_key [] st = (None, st)"
| "process_entries app pid main_key (ref # refs) st =
     (case process_entry app pid main_key ref st of
        (Some e, st') \<Rightarrow> (Some e, st')
      | (None, st') \<Rightarrow> process_entries app pid main_key refs st')"

definition append_reference :: "string \<Rightarrow> Paper \<Rightarrow> Paper" where
  "append_reference i p = p\<lparr>references := references p @ [i]\<rparr>"

definition append_citation :: "string \<Rightarrow> Paper \<Rightarrow> Paper" where
  "append_citation i p = p\<lparr>citations := citations p @ [i]\<rparr>"

text \<open>\<open>paper_data.get(key, []) or []\<close>.\<close>

fun list_or_empty :: "'a list field \<Rightarrow> 'a list" where
  "list_or_empty (Val xs) = xs"
| "list_or_empty Absent = []"
| "list_or_empty Null = []"

text \<open>\<open>str(n)\<close> for a length, used by the message of a successful call.\<close>

fun str_nat :: "nat \<Rightarrow> string" where
  "str_nat n = (if n < 10 then [''0123456789'' ! n]
                else str_nat (n div 10) @ [''0123456789'' ! (n mod 10)])"

declare str_nat.simps [simp del]

text \<open>
  \<open>process_main_paper\<close>. The result is the exception raised or the \<open>result\<close> dictionary,
  with the state the call leaves behind (mutation is in place, so an exception keeps
  what was written before it).
\<close>

definition process_main_paper :: "network \<Rightarrow> string \<Rightarrow> state \<Rightarrow> (error + result) \<times> state" where
  "process_main_paper net pid s =
     (let res = \<lparr>success = False, message = '''', paper = None, new_papers = 0, new_edges = 0\<rparr> in
      if (case papers_db s pid of Some p \<Rightarrow> is_main p | None \<Rightarrow> False) then
        (Inr (res\<lparr>message := ''Paper already added'',
                  paper := map_option paper_to_dict (papers_db s pid)\<rparr>), s)
      else
        (case fetch_paper_from_semantic_scholar net pid (requests s) of (fetched, log) \<Rightarrow>
         let s1 = s\<lparr>requests := log\<rparr> in
         if (case fetched of None \<Rightarrow> True | Some d \<Rightarrow> empty_dict d) then
           (Inr (res\<lparr>message := ''Failed to fetch paper from Semantic Scholar''\<rparr>), s1)
         else
           (let data = the fetched in
            (case add_paper_to_db data True (papers_db s1) of
               Inl e \<Rightarrow> (Inl e, s1)
             | Inr (None, db) \<Rightarrow>
                 (Inr (res\<lparr>message := ''Failed to process paper data''\<rparr>), s1\<lparr>papers_db := db\<rparr>)
             | Inr (Some main_key, db) \<Rightarrow>
                 (let refs = list_or_empty (json_references data);
                      cits = list_or_empty (json_citations data)
                  in (case process_entries append_reference pid main_key refs (db, edges s1, 0, 0) of
                        (Some e, (db', es', np, ne)) \<Rightarrow>
                          (Inl e, s1\<lparr>papers_db := db', edges := es'\<rparr>)
                      | (None, st) \<Rightarrow>
                          (case process_entries append_citation pid main_key cits st of
                             (Some e, (db', es', np, ne)) \<Rightarrow>
                               (Inl e, s1\<lparr>papers_db := db', edges := es'\<rparr>)
                           | (None, (db', es', np, ne)) \<Rightarrow>
                               (Inr (res\<lparr>success := True,
                                         message := ''Added paper with '' @ str_nat (length refs)
                                                    @ '' references and '' @ str_nat (length cits)
                                                    @ '' citations'',
                                         paper := map_option paper_to_dict (db' main_key),
                                         new_papers := np,
                                         new_edges := ne\<rparr>),
                                s1\<lparr>papers_db := db', edges := es'\<rparr>))))))))"

text \<open>The \<open>stats\<close> dictionary computed by \<open>api_get_papers\<close>.\<close>

record stats =
  total_papers :: nat
  main_papers :: nat
  total_edges :: nat

definition api_get_papers_stats :: "state \<Rightarrow> stats" where
  "api_get_papers_stats s =
     \<lparr>total_papers = card (dom (papers_db s)),
      main_papers = card {k \<in> dom (papers_db s). is_main (the (papers_db s k))},
      total_edges = card (edges s)\<rparr>"

text \<open>\<open>api_clear\<close>: both globals are replaced by empty containers.\<close>

definition api_clear :: "state \<Rightarrow> state" where
  "api_clear s = s\<lparr>papers_db := Map.empty, edges := {}\<rparr>"

text \<open>A session: any sequence of calls of \<open>process_main_paper\<close> and \<open>api_clear\<close>.\<close>

datatype operation = Ingest string | Reset

fun step :: "network \<Rightarrow> operation \<Rightarrow> state \<Rightarrow> state" where
  "step net (Ingest pid) s = snd (process_main_paper net pid s)"
| "step net Reset s = api_clear s"

fun run :: "network \<Rightarrow> operation list \<Rightarrow> state \<Rightarrow> state" where
  "run net [] s = s"
| "run net (op # ops) s = run net ops (step net op s)"

section \<open>Notions used in the statements\<close>

text \<open>The author names that \<open>add_paper_to_db\<close> reads from a payload whose \<open>authors\<close> is not \<open>null\<close>.\<close>

definition names_of :: "'a entry_data_scheme \<Rightarrow> string option list" where
  "names_of d = map (\<lambda>a. dict_get_default a ''Unknown'') (the (dict_get_default (json_authors d) []))"

text \<open>
  The three updates of \<open>papers_db\<close> that the body of a loop is made of: appending to a list
  of the main paper, inserting the neighbour when its key is new, and incrementing
  \<open>edge_count\<close> of a stored paper.
\<close>

definition appended ::
  "(string \<Rightarrow> Paper \<Rightarrow> Paper) \<Rightarrow> string \<Rightarrow> string \<Rightarrow> (string \<rightharpoonup> Paper) \<Rightarrow> (string \<rightharpoonup> Paper)" where
  "appended app mk i db = (case db mk of None \<Rightarrow> db | Some m \<Rightarrow> db(mk \<mapsto> app i m))"

definition neighbour_added :: "entry_data \<Rightarrow> string \<Rightarrow> (string \<rightharpoonup> Paper) \<Rightarrow> (string \<rightharpoonup> Paper)" where
  "neighbour_added ref i db =
     (if db i = None then db(i \<mapsto> build_paper ref i (names_of ref) False) else db)"

definition bump :: "string \<Rightarrow> (string \<rightharpoonup> Paper) \<Rightarrow> (string \<rightharpoonup> Paper)" where
  "bump k db = (case db k of None \<Rightarrow> db | Some p \<Rightarrow> db(k \<mapsto> p\<lparr>edge_count := edge_count p + 1\<rparr>))"

text \<open>The identifiers a loop visits, in order: those of the entries whose identifier is truthy.\<close>

definition neighbour_ids :: "entry_data list \<Rightarrow> string list" where
  "neighbour_ids refs =
     map (\<lambda>r. the (dict_get (json_paperId r))) (filter (\<lambda>r. truthy (dict_get (json_paperId r))) refs)"

text \<open>The identifiers in the two lists of the payload that a call would fetch.\<close>

definition fetched_neighbours :: "network \<Rightarrow> string \<Rightarrow> state \<Rightarrow> string set" where
  "fetched_neighbours net pid s =
     (case fst (fetch_paper_from_semantic_scholar net pid (requests s)) of
        None \<Rightarrow> {}
      | Some d \<Rightarrow> set (neighbour_ids (list_or_empty (json_references d)))
                  \<union> set (neighbour_ids (list_or_empty (json_citations d))))"

text \<open>
  How a stored record may differ from an earlier version of itself: the content fields are
  the same, \<open>is_main\<close> has not been cleared, \<open>edge_count\<close> has not decreased, and the two
  lists have only been extended at the end.
\<close>

definition updated_from :: "Paper \<Rightarrow> Paper \<Rightarrow> bool" where
  "updated_from p p' \<longleftrightarrow>
     paper_id p' = paper_id p \<and> title p' = title p \<and> authors p' = authors p \<and>
     year p' = year p \<and> publication_date p' = publication_date p \<and>
     citation_count p' = citation_count p \<and> url p' = url p \<and>
     (is_main p \<longrightarrow> is_main p') \<and> edge_count p \<le> edge_count p' \<and>
     prefix (references p) (references p') \<and> prefix (citations p) (citations p')"

definition store_kept :: "(string \<rightharpoonup> Paper) \<Rightarrow> (string \<rightharpoonup> Paper) \<Rightarrow> bool" where
  "store_kept db db' \<longleftrightarrow>
     (\<forall>k p. db k = Some p \<longrightarrow> (\<exists>p'. db' k = Some p' \<and> updated_from p p'))"

text \<open>
  The membership test of the loops, \<open>tuple(sorted([a, b])) in edges\<close>, and the number of
  edges that contain an identifier.
\<close>

definition contains :: "string \<Rightarrow> string \<Rightarrow> (string \<times> string) set \<Rightarrow> bool" where
  "contains a b es \<longleftrightarrow> sorted_pair a b \<in> es"

definition degree :: "string \<Rightarrow> (string \<times> string) set \<Rightarrow> nat" where
  "degree k es = card {e \<in> es. fst e = k \<or> snd e = k}"

text \<open>Every stored edge is a pair in sorted order.\<close>

definition ordered_edges :: "(string \<times> string) set \<Rightarrow> bool" where
  "ordered_edges es \<longleftrightarrow> (\<forall>e \<in> es. fst e \<le> snd e)"

text \<open>
  The counters agree with the edges: \<open>edges\<close> is finite, both identifiers of every edge are
  keys of \<open>papers_db\<close>, and \<open>edge_count\<close> of every stored paper is the number of edges that
  contain its key.
\<close>

definition consistent :: "(string \<rightharpoonup> Paper) \<Rightarrow> (string \<times> string) set \<Rightarrow> bool" where
  "consistent db es \<longleftrightarrow>
     finite es \<and> (\<forall>e \<in> es. fst e \<in> dom db \<and> snd e \<in> dom db) \<and>
     (\<forall>k p. db k = Some p \<longrightarrow> edge_count p = int (degree k es))"

section \<open>Example inputs\<close>

text \<open>A list entry and a payload that carry an identifier and nothing else.\<close>

definition entry :: "string \<Rightarrow> entry_data" where
  "entry i = \<lparr>json_paperId = Val i, json_title = Absent, json_authors = Absent,
     json_year = Absent, json_publicationDate = Absent, json_citationCount = Absent,
     json_url = Absent\<rparr>"

definition payload :: "string \<Rightarrow> string list \<Rightarrow> string list \<Rightarrow> paper_data" where
  "payload i rs cs = \<lparr>json_paperId = Val i, json_title = Absent, json_authors = Absent,
     json_year = Absent, json_publicationDate = Absent, json_citationCount = Absent,
     json_url = Absent, json_references = Val (map entry rs), json_citations = Val (map entry cs)\<rparr>"

text \<open>A provider that answers every request with status 200 and the same payload.\<close>

definition always :: "paper_data \<Rightarrow> network" where
  "always d log u = Response 200 d"

text \<open>A provider that fails every request.\<close>

definition unreachable :: network where
  "unreachable log u = RequestException"

text \<open>The record stored for a paper that has been added as a main paper with no neighbours.\<close>

definition lone_main :: "string \<Rightarrow> Paper" where
  "lone_main i = build_paper (entry i) i [] True"

definition lone_state :: "string \<Rightarrow> state" where
  "lone_state i = \<lparr>papers_db = [i \<mapsto> lone_main i], edges = {}, requests = [fetch_url i]\<rparr>"

text \<open>A provider that answers the \<open>n\<close>-th request with the \<open>n\<close>-th payload of a list.\<close>

definition scripted :: "paper_data list \<Rightarrow> network" where
  "scripted ds log u =
     (if length log < length ds then Response 200 (ds ! length log) else RequestException)"

text \<open>The state after adding, to the empty graph, a paper whose reference list names the paper itself.\<close>

definition self_cited :: state where
  "self_cited = snd (process_main_paper (always (payload ''R'' [''R''] [])) ''R'' initial_state)"

text \<open>A provider for a session that adds \<open>R\<close> (which cites \<open>A\<close>) and then \<open>A\<close> (which cites \<open>B\<close>).\<close>

definition two_papers :: network where
  "two_papers = scripted [payload ''R'' [''A''] [], payload ''A'' [''B''] []]"

text \<open>A provider for a session that adds \<open>N\<close> (which cites \<open>R\<close>) and then \<open>R\<close>, whose two lists both name \<open>N\<close>.\<close>

definition met_before :: network where
  "met_before = scripted [payload ''N'' [''R''] [], payload ''R'' [''N''] [''N'']]"

section \<open>The loops of \<open>process_main_paper\<close>\<close>

lemma add_paper_new:
  assumes "truthy (dict_get (json_paperId d))" and "db (the (dict_get (json_paperId d))) = None"
  shows "add_paper_to_db d m db =
     (if json_authors d = Null then Inl TypeError
      else Inr (Some (the (dict_get (json_paperId d))),
                db(the (dict_get (json_paperId d)) \<mapsto>
                     build_paper d (the (dict_get (json_paperId d))) (names_of d) m)))"
  using assms by (cases "json_authors d") (simp_all add: add_paper_to_db_def names_of_def Let_def)

lemma process_entry_skip:
  "\<not> truthy (dict_get (json_paperId ref)) \<Longrightarrow> process_entry app pid mk ref st = (None, st)"
  by (cases st) (simp add: process_entry_def)

lemma process_entry_unfold:
  assumes t: "truthy (dict_get (json_paperId ref))"
    and i: "i = the (dict_get (json_paperId ref))"
    and db1: "db1 = appended app mk i db"
  shows "process_entry app pid mk ref (db, es, np, ne) =
     (case (if db1 i = None
            then (case add_paper_to_db ref False db1 of
                    Inl e \<Rightarrow> Inl e
                  | Inr (r, db2) \<Rightarrow> Inr (db2, np + 1))
            else Inr (db1, np)) of
        Inl e \<Rightarrow> (Some e, (db1, es, np, ne))
      | Inr (db2, np2) \<Rightarrow>
          (if sorted_pair pid i \<in> es then (None, (db2, es, np2, ne))
           else
             (case db2 pid of
                None \<Rightarrow> (Some (KeyError pid), (db2, insert (sorted_pair pid i) es, np2, ne + 1))
              | Some p \<Rightarrow>
                  (case (db2(pid \<mapsto> p\<lparr>edge_count := edge_count p + 1\<rparr>)) i of
                     None \<Rightarrow> (Some (KeyError i), (db2(pid \<mapsto> p\<lparr>edge_count := edge_count p + 1\<rparr>),
                                 insert (sorted_pair pid i) es, np2, ne + 1))
                   | Some q \<Rightarrow>
                       (None, ((db2(pid \<mapsto> p\<lparr>edge_count := edge_count p + 1\<rparr>))(i \<mapsto> q\<lparr>edge_count := edge_count q + 1\<rparr>),
                               insert (sorted_pair pid i) es, np2, ne + 1))))))"
  unfolding process_entry_def Let_def i db1 appended_def prod.case using t by simp

lemma process_entry_eq:
  assumes t: "truthy (dict_get (json_paperId ref))"
  shows "process_entry app pid mk ref (db, es, np, ne) =
     (let i = the (dict_get (json_paperId ref));
          db1 = appended app mk i db
      in if db1 i = None \<and> json_authors ref = Null then (Some TypeError, (db1, es, np, ne))
         else
           let db2 = neighbour_added ref i db1;
               np2 = np + (if db1 i = None then 1 else 0);
               e = sorted_pair pid i
           in if e \<in> es then (None, (db2, es, np2, ne))
              else if db2 pid = None then (Some (KeyError pid), (db2, insert e es, np2, ne + 1))
              else (None, (bump i (bump pid db2), insert e es, np2, ne + 1)))"
proof -
  define i where "i = the (dict_get (json_paperId ref))"
  define db1 where "db1 = appended app mk i db"
  note u = process_entry_unfold[OF t i_def db1_def, of pid es np ne]
  show ?thesis
  proof (cases "db1 i = None")
    case True
    have add: "add_paper_to_db ref False db1 =
       (if json_authors ref = Null then Inl TypeError
        else Inr (Some i, db1(i \<mapsto> build_paper ref i (names_of ref) False)))"
      using add_paper_new[of ref db1 False] t True by (simp add: i_def)
    show ?thesis
      unfolding u Let_def i_def[symmetric] db1_def[symmetric]
      using True add
      by (auto simp: neighbour_added_def bump_def split: option.splits)
  next
    case False
    then show ?thesis
      unfolding u Let_def i_def[symmetric] db1_def[symmetric]
      by (auto simp: neighbour_added_def bump_def split: option.splits)
  qed
qed


lemma sorted_pair_commute: "sorted_pair a b = sorted_pair b a"
  by (auto simp: sorted_pair_def)

lemma sorted_pair_eq_iff:
  "sorted_pair a b = sorted_pair c d \<longleftrightarrow> (a = c \<and> b = d) \<or> (a = d \<and> b = c)"
  by (auto simp: sorted_pair_def)

lemma sorted_pair_inj [simp]: "sorted_pair a b = sorted_pair a c \<longleftrightarrow> b = c"
  by (auto simp: sorted_pair_eq_iff)

lemma inj_sorted_pair: "inj (sorted_pair a)"
  by (simp add: inj_def)

lemma sorted_pair_ordered: "sorted_pair a b = (x, y) \<Longrightarrow> x \<le> y"
  by (auto simp: sorted_pair_def split: if_splits)

lemma sorted_pair_loop: "sorted_pair a b = (x, x) \<longleftrightarrow> a = x \<and> b = x"
  by (auto simp: sorted_pair_def)

lemma updated_from_refl: "updated_from p p"
  by (simp add: updated_from_def)

lemma updated_from_trans: "updated_from p q \<Longrightarrow> updated_from q r \<Longrightarrow> updated_from p r"
  by (auto simp: updated_from_def)

lemma store_kept_refl: "store_kept db db"
  by (auto simp: store_kept_def updated_from_refl)

lemma store_kept_trans: "store_kept a b \<Longrightarrow> store_kept b c \<Longrightarrow> store_kept a c"
  unfolding store_kept_def by (meson updated_from_trans)

lemma store_kept_upd:
  "db k = Some p \<Longrightarrow> updated_from p p' \<Longrightarrow> store_kept db (db(k \<mapsto> p'))"
  by (auto simp: store_kept_def updated_from_refl)

lemma store_kept_new: "db k = None \<Longrightarrow> store_kept db (db(k \<mapsto> p'))"
  by (auto simp: store_kept_def updated_from_refl)

lemma updated_from_append_reference: "updated_from p (append_reference i p)"
  by (simp add: updated_from_def append_reference_def)

lemma updated_from_append_citation: "updated_from p (append_citation i p)"
  by (simp add: updated_from_def append_citation_def)

lemma appended_apply:
  "appended app mk i db k = (if k = mk then map_option (app i) (db mk) else db k)"
  by (auto simp: appended_def split: option.splits)

lemma neighbour_added_apply:
  "neighbour_added ref i db k =
     (if k = i \<and> db i = None then Some (build_paper ref i (names_of ref) False) else db k)"
  by (simp add: neighbour_added_def)

lemma bump_apply:
  "bump k db j = (if j = k then map_option (\<lambda>p. p\<lparr>edge_count := edge_count p + 1\<rparr>) (db k) else db j)"
  by (auto simp: bump_def split: option.splits)

lemma dom_appended [simp]: "dom (appended app mk i db) = dom db"
  by (auto simp: appended_apply dom_def split: if_splits)

lemma dom_neighbour_added [simp]: "dom (neighbour_added ref i db) = insert i (dom db)"
  by (auto simp: neighbour_added_apply dom_def split: if_splits)

lemma dom_bump [simp]: "dom (bump k db) = dom db"
  by (auto simp: bump_apply dom_def split: if_splits)

lemma store_kept_appended:
  "(\<And>i p. updated_from p (app i p)) \<Longrightarrow> store_kept db (appended app mk i db)"
  by (auto simp: store_kept_def appended_apply updated_from_refl)

lemma store_kept_neighbour_added: "store_kept db (neighbour_added ref i db)"
  by (auto simp: store_kept_def neighbour_added_apply updated_from_refl)

lemma store_kept_bump: "store_kept db (bump k db)"
  by (auto simp: store_kept_def bump_apply updated_from_refl) (simp add: updated_from_def)

lemma add_paper_to_db_kept:
  assumes "add_paper_to_db d m db = Inr (r, db')"
  shows "store_kept db db'"
proof (cases "truthy (dict_get (json_paperId d)) \<and> json_authors d \<noteq> Null")
  case False
  then show ?thesis using assms
    by (cases "json_authors d") (auto simp: add_paper_to_db_def store_kept_refl split: if_splits)
next
  case True
  define k where "k = the (dict_get (json_paperId d))"
  obtain as where as: "dict_get_default (json_authors d) [] = Some as"
    using True by (cases "json_authors d") auto
  show ?thesis
  proof (cases "db k")
    case None
    then show ?thesis using assms True as
      by (auto simp: add_paper_to_db_def Let_def k_def[symmetric] intro: store_kept_new)
  next
    case (Some old)
    have "updated_from old (old\<lparr>is_main := True\<rparr>)" by (simp add: updated_from_def)
    then show ?thesis using assms True as Some
      by (auto simp: add_paper_to_db_def Let_def k_def[symmetric] store_kept_refl
          intro: store_kept_upd split: if_splits)
  qed
qed

text \<open>What one step of a loop does to the store and the edges, whatever its outcome.\<close>

lemma process_entry_general:
  assumes app: "\<And>i p. updated_from p (app i p)"
    and pe: "process_entry app pid mk ref (db, es, np, ne) = (r, (db', es', np', ne'))"
  shows "store_kept db db'" and "es \<subseteq> es'"
    and "es' \<subseteq> es \<union> sorted_pair pid ` {i. truthy (dict_get (json_paperId ref)) \<and> i = the (dict_get (json_paperId ref))}"
proof -
  have "store_kept db db' \<and> es \<subseteq> es' \<and>
     es' \<subseteq> es \<union> sorted_pair pid ` {i. truthy (dict_get (json_paperId ref)) \<and> i = the (dict_get (json_paperId ref))}"
  proof (cases "truthy (dict_get (json_paperId ref))")
    case False
    then show ?thesis using pe by (simp add: process_entry_skip store_kept_refl)
  next
    case True
    define i where "i = the (dict_get (json_paperId ref))"
    define db1 where "db1 = appended app mk i db"
    define db2 where "db2 = neighbour_added ref i db1"
    have k1: "store_kept db db1" unfolding db1_def using app by (rule store_kept_appended)
    have k2: "store_kept db db2"
      using k1 store_kept_neighbour_added unfolding db2_def by (rule store_kept_trans)
    have k3: "store_kept db (bump i (bump pid db2))"
      using k2 store_kept_bump store_kept_trans by blast
    from pe True show ?thesis
      unfolding process_entry_eq[OF True] Let_def i_def[symmetric] db1_def[symmetric] db2_def[symmetric]
      using k1 k2 k3 by (auto split: if_splits)
  qed
  then show "store_kept db db'" and "es \<subseteq> es'"
    and "es' \<subseteq> es \<union> sorted_pair pid ` {i. truthy (dict_get (json_paperId ref)) \<and> i = the (dict_get (json_paperId ref))}"
    by blast+
qed

lemma neighbour_ids_Nil [simp]: "neighbour_ids [] = []"
  by (simp add: neighbour_ids_def)

lemma neighbour_ids_Cons:
  "neighbour_ids (r # rs) =
     (if truthy (dict_get (json_paperId r)) then the (dict_get (json_paperId r)) # neighbour_ids rs
      else neighbour_ids rs)"
  by (simp add: neighbour_ids_def)

lemma process_entries_general:
  assumes app: "\<And>i p. updated_from p (app i p)"
  shows "process_entries app pid mk refs (db, es, np, ne) = (r, (db', es', np', ne')) \<Longrightarrow>
         store_kept db db' \<and> es \<subseteq> es' \<and> es' \<subseteq> es \<union> sorted_pair pid ` set (neighbour_ids refs)"
proof (induction refs arbitrary: db es np ne)
  case Nil
  then show ?case by (simp add: store_kept_refl)
next
  case (Cons ref refs)
  obtain r1 db1 es1 np1 ne1 where
    pe: "process_entry app pid mk ref (db, es, np, ne) = (r1, (db1, es1, np1, ne1))"
    by (metis prod_cases4)
  note g = process_entry_general[OF app pe]
  have sub: "es1 \<subseteq> es \<union> sorted_pair pid ` set (neighbour_ids (ref # refs))"
    using g(3) by (auto simp: neighbour_ids_Cons)
  show ?case
  proof (cases r1)
    case (Some e)
    with Cons.prems pe have "db' = db1" "es' = es1" by simp_all
    with g sub show ?thesis by simp
  next
    case None
    with Cons.prems pe have
      "process_entries app pid mk refs (db1, es1, np1, ne1) = (r, (db', es', np', ne'))" by simp
    from Cons.IH[OF this] have
      ih: "store_kept db1 db'" "es1 \<subseteq> es'" "es' \<subseteq> es1 \<union> sorted_pair pid ` set (neighbour_ids refs)"
      by simp_all
    have "store_kept db db'" using g(1) ih(1) by (rule store_kept_trans)
    moreover have "es \<subseteq> es'" using g(2) ih(2) by simp
    moreover have "es' \<subseteq> es \<union> sorted_pair pid ` set (neighbour_ids (ref # refs))"
      using ih(3) sub by (auto simp: neighbour_ids_Cons)
    ultimately show ?thesis by simp
  qed
qed

section \<open>The outcomes of \<open>process_main_paper\<close>\<close>

lemma process_main_paper_cases:
  assumes run: "process_main_paper net pid s = (out, s')"
  obtains
    (already_main) p where
      "papers_db s pid = Some p" "is_main p" "s' = s"
      "out = Inr \<lparr>success = False, message = ''Paper already added'',
                   paper = Some (paper_to_dict p), new_papers = 0, new_edges = 0\<rparr>"
  | (fetch_failed) fetched log where
      "fetch_paper_from_semantic_scholar net pid (requests s) = (fetched, log)"
      "s' = s\<lparr>requests := log\<rparr>" "\<exists>r. out = Inr r \<and> \<not> success r"
  | (root_error) d log e where
      "fetch_paper_from_semantic_scholar net pid (requests s) = (Some d, log)"
      "add_paper_to_db d True (papers_db s) = Inl e"
      "s' = s\<lparr>requests := log\<rparr>" "out = Inl e"
  | (references_error) d log mk db e db' es' np ne where
      "fetch_paper_from_semantic_scholar net pid (requests s) = (Some d, log)"
      "add_paper_to_db d True (papers_db s) = Inr (Some mk, db)"
      "process_entries append_reference pid mk (list_or_empty (json_references d)) (db, edges s, 0, 0)
         = (Some e, (db', es', np, ne))"
      "s' = s\<lparr>requests := log, papers_db := db', edges := es'\<rparr>" "out = Inl e"
  | (citations_error) d log mk db db1 es1 np1 ne1 e db' es' np ne where
      "fetch_paper_from_semantic_scholar net pid (requests s) = (Some d, log)"
      "add_paper_to_db d True (papers_db s) = Inr (Some mk, db)"
      "process_entries append_reference pid mk (list_or_empty (json_references d)) (db, edges s, 0, 0)
         = (None, (db1, es1, np1, ne1))"
      "process_entries append_citation pid mk (list_or_empty (json_citations d)) (db1, es1, np1, ne1)
         = (Some e, (db', es', np, ne))"
      "s' = s\<lparr>requests := log, papers_db := db', edges := es'\<rparr>" "out = Inl e"
  | (completed) d log mk db db1 es1 np1 ne1 db' es' np ne msg where
      "\<forall>p. papers_db s pid = Some p \<longrightarrow> \<not> is_main p"
      "fetch_paper_from_semantic_scholar net pid (requests s) = (Some d, log)"
      "add_paper_to_db d True (papers_db s) = Inr (Some mk, db)"
      "process_entries append_reference pid mk (list_or_empty (json_references d)) (db, edges s, 0, 0)
         = (None, (db1, es1, np1, ne1))"
      "process_entries append_citation pid mk (list_or_empty (json_citations d)) (db1, es1, np1, ne1)
         = (None, (db', es', np, ne))"
      "s' = s\<lparr>requests := log, papers_db := db', edges := es'\<rparr>"
      "out = Inr \<lparr>success = True, message = msg, paper = map_option paper_to_dict (db' mk),
                   new_papers = np, new_edges = ne\<rparr>"
proof (cases "case papers_db s pid of Some p \<Rightarrow> is_main p | None \<Rightarrow> False")
  case True
  then obtain p where p: "papers_db s pid = Some p" "is_main p" by (auto split: option.splits)
  with run show thesis by (intro already_main[where p=p]) (auto simp: process_main_paper_def)
next
  case nsc: False
  obtain fetched log where f: "fetch_paper_from_semantic_scholar net pid (requests s) = (fetched, log)"
    by (cases "fetch_paper_from_semantic_scholar net pid (requests s)")
  show thesis
  proof (cases "case fetched of None \<Rightarrow> True | Some d \<Rightarrow> empty_dict d")
    case True
    with run nsc f show thesis
      by (intro fetch_failed[where fetched=fetched and log=log]) (auto simp: process_main_paper_def)
  next
    case False
    then obtain d where d: "fetched = Some d" "\<not> empty_dict d" by (auto split: option.splits)
    note pm = run nsc f d
    note pd = process_main_paper_def Let_def
    show thesis
    proof (cases "add_paper_to_db d True (papers_db s)")
      case (Inl e)
      with pm show thesis by (intro root_error[where d=d and log=log and e=e]) (auto simp: pd)
    next
      case (Inr x)
      obtain k db where x: "x = (k, db)" by (cases x)
      show thesis
      proof (cases k)
        case None
        have "db = papers_db s" using Inr x None
          by (auto simp: add_paper_to_db_def Let_def split: if_splits option.splits)
        with pm Inr x None show thesis
          by (intro fetch_failed[where fetched=fetched and log=log]) (auto simp: pd)
      next
        case (Some mk)
        obtain r1 db1 es1 np1 ne1 where
          l1: "process_entries append_reference pid mk (list_or_empty (json_references d)) (db, edges s, 0, 0)
                 = (r1, (db1, es1, np1, ne1))" by (metis prod_cases4)
        show thesis
        proof (cases r1)
          case (Some e)
          with pm Inr x \<open>k = Some mk\<close> l1
          have "s' = s\<lparr>requests := log, papers_db := db1, edges := es1\<rparr>" "out = Inl e"
            by (auto simp: pd)
          then show thesis using f d Inr x \<open>k = Some mk\<close> l1 Some
            by (intro references_error[where d=d and log=log and mk=mk and db=db and db'=db1
                  and es'=es1 and e=e and np=np1 and ne=ne1]) auto
        next
          case None
          obtain r2 db2 es2 np2 ne2 where
            l2: "process_entries append_citation pid mk (list_or_empty (json_citations d)) (db1, es1, np1, ne1)
                   = (r2, (db2, es2, np2, ne2))" by (metis prod_cases4)
          show thesis
          proof (cases r2)
            case (Some e)
            with pm Inr x \<open>k = Some mk\<close> l1 l2 None
            have "s' = s\<lparr>requests := log, papers_db := db2, edges := es2\<rparr>" "out = Inl e"
              by (auto simp: pd)
            then show thesis using f d Inr x \<open>k = Some mk\<close> l1 l2 None Some
              by (intro citations_error[where d=d and log=log and mk=mk and db=db and ?db1.0=db1
                    and ?es1.0=es1 and ?np1.0=np1 and ?ne1.0=ne1 and db'=db2 and es'=es2 and e=e
                    and np=np2 and ne=ne2]) auto
          next
            case n2: None
            with pm Inr x \<open>k = Some mk\<close> l1 l2 None
            have "s' = s\<lparr>requests := log, papers_db := db2, edges := es2\<rparr>"
              "\<exists>msg. out = Inr \<lparr>success = True, message = msg, paper = map_option paper_to_dict (db2 mk),
                   new_papers = np2, new_edges = ne2\<rparr>"
              by (auto simp: pd)
            then show thesis using f d Inr x \<open>k = Some mk\<close> l1 l2 None n2 nsc
              by (elim exE, intro completed[where d=d and log=log and mk=mk and db=db and ?db1.0=db1
                    and ?es1.0=es1 and ?np1.0=np1 and ?ne1.0=ne1 and db'=db2 and es'=es2
                    and np=np2 and ne=ne2])
                 (auto split: option.splits)
          qed
        qed
      qed
    qed
  qed
qed

section \<open>A loop that completes\<close>

lemma process_entry_ok:
  assumes t: "truthy (dict_get (json_paperId ref))"
    and pe: "process_entry app pid mk ref (db, es, np, ne) = (None, (db', es', np', ne'))"
  shows "dom db' = insert (the (dict_get (json_paperId ref))) (dom db)"
    and "es' = insert (sorted_pair pid (the (dict_get (json_paperId ref)))) es"
    and "np' = np + (if the (dict_get (json_paperId ref)) \<in> dom db then 0 else 1)"
    and "ne' = ne + (if sorted_pair pid (the (dict_get (json_paperId ref))) \<in> es then 0 else 1)"
    and "db mk = Some m \<Longrightarrow>
           \<exists>c. db' mk = Some ((app (the (dict_get (json_paperId ref))) m)\<lparr>edge_count := c\<rparr>)"
proof -
  define i where "i = the (dict_get (json_paperId ref))"
  define db1 where "db1 = appended app mk i db"
  define db2 where "db2 = neighbour_added ref i db1"
  have d1: "db1 i = None \<longleftrightarrow> i \<notin> dom db"
    by (auto simp: db1_def appended_apply dom_def)
  from pe have *: "db' = (if sorted_pair pid i \<in> es then db2 else bump i (bump pid db2))"
      "es' = insert (sorted_pair pid i) es"
      "np' = np + (if i \<in> dom db then 0 else 1)"
      "ne' = ne + (if sorted_pair pid i \<in> es then 0 else 1)"
    unfolding process_entry_eq[OF t] Let_def i_def[symmetric] db1_def[symmetric] db2_def[symmetric]
    by (auto simp: d1 split: if_splits)
  show "dom db' = insert (the (dict_get (json_paperId ref))) (dom db)"
    using *(1) by (simp add: i_def[symmetric] db2_def db1_def)
  show "es' = insert (sorted_pair pid (the (dict_get (json_paperId ref)))) es"
    using *(2) by (simp add: i_def)
  show "np' = np + (if the (dict_get (json_paperId ref)) \<in> dom db then 0 else 1)"
    using *(3) by (simp add: i_def)
  show "ne' = ne + (if sorted_pair pid (the (dict_get (json_paperId ref))) \<in> es then 0 else 1)"
    using *(4) by (simp add: i_def)
  show "\<exists>c. db' mk = Some ((app (the (dict_get (json_paperId ref))) m)\<lparr>edge_count := c\<rparr>)"
    if m: "db mk = Some m"
  proof -
    have 1: "db1 mk = Some (app i m)" using m by (simp add: db1_def appended_apply)
    have 2: "db2 mk = Some (app i m)" using 1 by (auto simp: db2_def neighbour_added_apply)
    have e0: "app i m = (app i m)\<lparr>edge_count := edge_count (app i m)\<rparr>" by simp
    have "\<exists>c. db' mk = Some ((app i m)\<lparr>edge_count := c\<rparr>)"
    proof (cases "sorted_pair pid i \<in> es")
      case True
      then show ?thesis using *(1) 2 e0 by metis
    next
      case False
      then have "db' = bump i (bump pid db2)" using *(1) by simp
      then show ?thesis using 2 e0
        by (auto simp: bump_apply intro: exI[of _ "edge_count (app i m)"])
    qed
    then show ?thesis by (simp add: i_def)
  qed
qed

lemma card_new_ids:
  "int (card (insert i (set xs) - D)) = (if i \<in> D then 0 else 1) + int (card (set xs - insert i D))"
proof (cases "i \<in> D")
  case True
  then show ?thesis by (simp add: insert_absorb)
next
  case False
  have "insert i (set xs) - D = insert i (set xs - insert i D)" using False by auto
  moreover have "i \<notin> set xs - insert i D" by simp
  ultimately show ?thesis using False by simp
qed

lemma card_new_edges:
  "int (card (sorted_pair p ` insert i (set xs) - E)) =
     (if sorted_pair p i \<in> E then 0 else 1) + int (card (sorted_pair p ` set xs - insert (sorted_pair p i) E))"
proof -
  have "sorted_pair p ` insert i (set xs) = insert (sorted_pair p i) (set (map (sorted_pair p) xs))"
    by simp
  then show ?thesis using card_new_ids[of "sorted_pair p i" "map (sorted_pair p) xs" E] by simp
qed

lemma process_entries_ok:
  assumes g: "\<And>p c. g (p\<lparr>edge_count := c\<rparr>) = g p" and h: "\<And>i p. g (app i p) = h (g p) i"
  shows "process_entries app pid mk refs (db, es, np, ne) = (None, (db', es', np', ne')) \<Longrightarrow>
         db mk = Some m \<Longrightarrow>
         dom db' = dom db \<union> set (neighbour_ids refs) \<and>
         es' = es \<union> sorted_pair pid ` set (neighbour_ids refs) \<and>
         np' = np + int (card (set (neighbour_ids refs) - dom db)) \<and>
         ne' = ne + int (card (sorted_pair pid ` set (neighbour_ids refs) - es)) \<and>
         (\<exists>m'. db' mk = Some m' \<and> g m' = foldl h (g m) (neighbour_ids refs))"
proof (induction refs arbitrary: db es np ne m)
  case Nil
  then show ?case by simp
next
  case (Cons ref refs)
  obtain r1 db1 es1 np1 ne1 where
    pe: "process_entry app pid mk ref (db, es, np, ne) = (r1, (db1, es1, np1, ne1))"
    by (metis prod_cases4)
  have r1: "r1 = None" using Cons.prems(1) pe by (auto split: option.splits)
  with Cons.prems(1) pe have
    rest: "process_entries app pid mk refs (db1, es1, np1, ne1) = (None, (db', es', np', ne'))" by simp
  show ?case
  proof (cases "truthy (dict_get (json_paperId ref))")
    case False
    with pe have "db1 = db" "es1 = es" "np1 = np" "ne1 = ne" by (simp_all add: process_entry_skip)
    with Cons.IH[OF rest[unfolded this] Cons.prems(2)] False show ?thesis
      by (simp add: neighbour_ids_Cons)
  next
    case True
    define i where "i = the (dict_get (json_paperId ref))"
    note ok = process_entry_ok[OF True pe[unfolded r1], folded i_def]
    from ok(5)[OF Cons.prems(2)] obtain c where m1: "db1 mk = Some ((app i m)\<lparr>edge_count := c\<rparr>)" by blast
    have gm1: "g ((app i m)\<lparr>edge_count := c\<rparr>) = h (g m) i" by (simp add: g h)
    from Cons.IH[OF rest m1] obtain m' where
      ih: "dom db' = dom db1 \<union> set (neighbour_ids refs)"
          "es' = es1 \<union> sorted_pair pid ` set (neighbour_ids refs)"
          "np' = np1 + int (card (set (neighbour_ids refs) - dom db1))"
          "ne' = ne1 + int (card (sorted_pair pid ` set (neighbour_ids refs) - es1))"
          "db' mk = Some m'" "g m' = foldl h (h (g m) i) (neighbour_ids refs)"
      unfolding gm1 by blast
    have ids: "neighbour_ids (ref # refs) = i # neighbour_ids refs"
      using True by (simp add: neighbour_ids_Cons i_def)
    have "dom db' = dom db \<union> set (neighbour_ids (ref # refs))"
      using ih(1) ok(1) by (auto simp: ids)
    moreover have "es' = es \<union> sorted_pair pid ` set (neighbour_ids (ref # refs))"
      using ih(2) ok(2) by (auto simp: ids)
    moreover have "np' = np + int (card (set (neighbour_ids (ref # refs)) - dom db))"
      using ih(3) ok(1,3) card_new_ids[of i "neighbour_ids refs" "dom db"] by (simp add: ids)
    moreover have "ne' = ne + int (card (sorted_pair pid ` set (neighbour_ids (ref # refs)) - es))"
      using ih(4) ok(2,4) card_new_edges[of pid i "neighbour_ids refs" es] by (simp add: ids)
    moreover have "\<exists>m'. db' mk = Some m' \<and> g m' = foldl h (g m) (neighbour_ids (ref # refs))"
      using ih(5,6) by (simp add: ids)
    ultimately show ?thesis by blast
  qed
qed

section \<open>A call that completes\<close>

lemma add_paper_root:
  assumes "add_paper_to_db d True db0 = Inr (Some k, db)"
  shows "truthy (dict_get (json_paperId d))" and "k = the (dict_get (json_paperId d))"
    and "db = db0(k \<mapsto> (case db0 k of None \<Rightarrow> build_paper d k (names_of d) True
                                      | Some old \<Rightarrow> old\<lparr>is_main := True\<rparr>))"
  using assms
  by (auto simp: add_paper_to_db_def Let_def names_of_def split: if_splits option.splits)

lemma foldl_append_reference:
  "foldl (\<lambda>q i. (append_reference i q)\<lparr>edge_count := 0\<rparr>) (m\<lparr>edge_count := 0\<rparr>) ids
     = m\<lparr>references := references m @ ids, edge_count := 0\<rparr>"
  by (induction ids arbitrary: m) (simp_all add: append_reference_def)

lemma foldl_append_citation:
  "foldl (\<lambda>q i. (append_citation i q)\<lparr>edge_count := 0\<rparr>) (m\<lparr>edge_count := 0\<rparr>) ids
     = m\<lparr>citations := citations m @ ids, edge_count := 0\<rparr>"
  by (induction ids arbitrary: m) (simp_all add: append_citation_def)

lemma process_main_paper_success:
  assumes run: "process_main_paper net pid s = (Inr r, s')" and ok: "success r"
  obtains d log mk db db1 es1 np1 ne1 db' es' where
      "\<forall>p. papers_db s pid = Some p \<longrightarrow> \<not> is_main p"
      "fetch_paper_from_semantic_scholar net pid (requests s) = (Some d, log)"
      "add_paper_to_db d True (papers_db s) = Inr (Some mk, db)"
      "process_entries append_reference pid mk (list_or_empty (json_references d)) (db, edges s, 0, 0)
         = (None, (db1, es1, np1, ne1))"
      "process_entries append_citation pid mk (list_or_empty (json_citations d)) (db1, es1, np1, ne1)
         = (None, (db', es', new_papers r, new_edges r))"
      "s' = s\<lparr>requests := log, papers_db := db', edges := es'\<rparr>"
      "paper r = map_option paper_to_dict (db' mk)"
  using run
proof (cases rule: process_main_paper_cases)
  case (already_main p)
  with ok show ?thesis by simp
next
  case (fetch_failed fetched log)
  with ok show ?thesis by auto
next
  case (completed d log mk db db1 es1 np1 ne1 db' es' np ne msg)
  then show ?thesis using that[of d log mk db db1 es1 np1 ne1 db' es'] by simp
qed simp_all

lemma ingest_completed:
  assumes run: "process_main_paper net pid s = (Inr r, s')" and ok: "success r"
    and f: "fetch_paper_from_semantic_scholar net pid (requests s) = (Some d, log)"
  defines "mk \<equiv> the (dict_get (json_paperId d))"
    and "rids \<equiv> neighbour_ids (list_or_empty (json_references d))"
    and "cids \<equiv> neighbour_ids (list_or_empty (json_citations d))"
  shows "truthy (dict_get (json_paperId d))"
    and "dom (papers_db s') = insert mk (dom (papers_db s)) \<union> (set rids \<union> set cids)"
    and "edges s' = edges s \<union> sorted_pair pid ` (set rids \<union> set cids)"
    and "new_papers r = int (card ((set rids \<union> set cids) - insert mk (dom (papers_db s))))"
    and "new_edges r = int (card (sorted_pair pid ` (set rids \<union> set cids) - edges s))"
    and "\<exists>m. papers_db s' mk = Some m \<and> paper r = Some (paper_to_dict m) \<and> is_main m \<and>
           references m = (case papers_db s mk of None \<Rightarrow> [] | Some old \<Rightarrow> references old) @ rids \<and>
           citations m = (case papers_db s mk of None \<Rightarrow> [] | Some old \<Rightarrow> citations old) @ cids"
    and "requests s' = log"
proof -
  from run ok obtain d' log' k db db1 es1 np1 ne1 db' es' where completed:
      "\<forall>p. papers_db s pid = Some p \<longrightarrow> \<not> is_main p"
      "fetch_paper_from_semantic_scholar net pid (requests s) = (Some d', log')"
      "add_paper_to_db d' True (papers_db s) = Inr (Some k, db)"
      "process_entries append_reference pid k (list_or_empty (json_references d')) (db, edges s, 0, 0)
         = (None, (db1, es1, np1, ne1))"
      "process_entries append_citation pid k (list_or_empty (json_citations d')) (db1, es1, np1, ne1)
         = (None, (db', es', new_papers r, new_edges r))"
      "s' = s\<lparr>requests := log', papers_db := db', edges := es'\<rparr>"
      "paper r = map_option paper_to_dict (db' k)"
    by (rule process_main_paper_success)
  define np where "np = new_papers r"
  define ne where "ne = new_edges r"
  note completed = completed[folded np_def ne_def]
  have dd: "d' = d" "log' = log" using completed(2) f by simp_all
  note root = add_paper_root[OF completed(3)[unfolded dd]]
  have k: "k = mk" using root(2) by (simp add: mk_def)
  define m0 where "m0 = (case papers_db s mk of None \<Rightarrow> build_paper d mk (names_of d) True
                                      | Some old \<Rightarrow> old\<lparr>is_main := True\<rparr>)"
  have db: "db = (papers_db s)(mk \<mapsto> m0)" using root(3) unfolding k m0_def by simp
  have dbm: "db mk = Some m0" by (simp add: db)
  have m0: "is_main m0"
    "references m0 = (case papers_db s mk of None \<Rightarrow> [] | Some old \<Rightarrow> references old)"
    "citations m0 = (case papers_db s mk of None \<Rightarrow> [] | Some old \<Rightarrow> citations old)"
    by (auto simp: m0_def build_paper_def split: option.splits)
  have A: "dom db1 = dom db \<union> set rids \<and>
         es1 = edges s \<union> sorted_pair pid ` set rids \<and>
         np1 = 0 + int (card (set rids - dom db)) \<and>
         ne1 = 0 + int (card (sorted_pair pid ` set rids - edges s)) \<and>
         (\<exists>m'. db1 mk = Some m' \<and> m'\<lparr>edge_count := 0\<rparr> =
            foldl (\<lambda>q i. (append_reference i q)\<lparr>edge_count := 0\<rparr>) (m0\<lparr>edge_count := 0\<rparr>) rids)"
    unfolding rids_def
    by (rule process_entries_ok[where g="\<lambda>p. p\<lparr>edge_count := 0\<rparr>", OF _ _ completed(4)[unfolded dd k] dbm])
       (simp_all add: append_reference_def)
  then obtain m1 where m1: "db1 mk = Some m1"
      "m1\<lparr>edge_count := 0\<rparr> = m0\<lparr>references := references m0 @ rids, edge_count := 0\<rparr>"
    unfolding foldl_append_reference by blast
  have B: "dom db' = dom db1 \<union> set cids \<and>
         es' = es1 \<union> sorted_pair pid ` set cids \<and>
         np = np1 + int (card (set cids - dom db1)) \<and>
         ne = ne1 + int (card (sorted_pair pid ` set cids - es1)) \<and>
         (\<exists>m'. db' mk = Some m' \<and> m'\<lparr>edge_count := 0\<rparr> =
            foldl (\<lambda>q i. (append_citation i q)\<lparr>edge_count := 0\<rparr>) (m1\<lparr>edge_count := 0\<rparr>) cids)"
    unfolding cids_def
    by (rule process_entries_ok[where g="\<lambda>p. p\<lparr>edge_count := 0\<rparr>", OF _ _ completed(5)[unfolded dd k] m1(1)])
       (simp_all add: append_citation_def)
  then obtain m2 where m2: "db' mk = Some m2"
      "m2\<lparr>edge_count := 0\<rparr> = m1\<lparr>citations := citations m1 @ cids, edge_count := 0\<rparr>"
    unfolding foldl_append_citation by blast
  have f1: "references m1 = references m0 @ rids" "citations m1 = citations m0" "is_main m1 = is_main m0"
    using arg_cong[OF m1(2), of references] arg_cong[OF m1(2), of citations]
      arg_cong[OF m1(2), of is_main] by simp_all
  have f2: "references m2 = references m1" "citations m2 = citations m1 @ cids" "is_main m2 = is_main m1"
    using arg_cong[OF m2(2), of references] arg_cong[OF m2(2), of citations]
      arg_cong[OF m2(2), of is_main] by simp_all
  have domdb: "dom db = insert mk (dom (papers_db s))" by (simp add: db)
  have fin: "finite (set rids)" "finite (set cids)" by simp_all
  have r: "paper r = map_option paper_to_dict (db' mk)" "new_papers r = np" "new_edges r = ne"
    using completed(7) k by (simp_all add: np_def ne_def)
  show "truthy (dict_get (json_paperId d))" by (rule root(1))
  show "dom (papers_db s') = insert mk (dom (papers_db s)) \<union> (set rids \<union> set cids)"
    using A B completed(6) domdb by auto
  show "edges s' = edges s \<union> sorted_pair pid ` (set rids \<union> set cids)"
    using A B completed(6) by auto
  show "requests s' = log" using completed(6) dd by simp
  show "\<exists>m. papers_db s' mk = Some m \<and> paper r = Some (paper_to_dict m) \<and> is_main m \<and>
           references m = (case papers_db s mk of None \<Rightarrow> [] | Some old \<Rightarrow> references old) @ rids \<and>
           citations m = (case papers_db s mk of None \<Rightarrow> [] | Some old \<Rightarrow> citations old) @ cids"
    using m2(1) f1 f2 m0 r(1) completed(6) by simp
  have "np = int (card (set rids - dom db)) + int (card (set cids - (dom db \<union> set rids)))"
    using A B by simp
  also have "\<dots> = int (card ((set rids \<union> set cids) - dom db))"
  proof -
    have "(set rids \<union> set cids) - dom db = (set rids - dom db) \<union> (set cids - (dom db \<union> set rids))"
      by auto
    moreover have "(set rids - dom db) \<inter> (set cids - (dom db \<union> set rids)) = {}" by auto
    ultimately show ?thesis using fin by (simp add: card_Un_disjoint)
  qed
  finally show "new_papers r = int (card ((set rids \<union> set cids) - insert mk (dom (papers_db s))))"
    using r(2) domdb by simp
  have "ne = int (card (sorted_pair pid ` set rids - edges s))
           + int (card (sorted_pair pid ` set cids - (edges s \<union> sorted_pair pid ` set rids)))"
    using A B by simp
  also have "\<dots> = int (card (sorted_pair pid ` (set rids \<union> set cids) - edges s))"
  proof -
    have "sorted_pair pid ` (set rids \<union> set cids) - edges s =
       (sorted_pair pid ` set rids - edges s) \<union>
       (sorted_pair pid ` set cids - (edges s \<union> sorted_pair pid ` set rids))"
      by auto
    moreover have "(sorted_pair pid ` set rids - edges s) \<inter>
       (sorted_pair pid ` set cids - (edges s \<union> sorted_pair pid ` set rids)) = {}" by auto
    ultimately show ?thesis using fin by (simp add: card_Un_disjoint)
  qed
  finally show "new_edges r = int (card (sorted_pair pid ` (set rids \<union> set cids) - edges s))"
    using r(3) by simp
qed

section \<open>Sessions\<close>

lemma process_main_paper_general:
  assumes run: "process_main_paper net pid s = (out, s')"
  shows "store_kept (papers_db s) (papers_db s') \<and> edges s \<subseteq> edges s' \<and>
         edges s' \<subseteq> edges s \<union> sorted_pair pid ` fetched_neighbours net pid s"
  using run
proof (cases rule: process_main_paper_cases)
  case (already_main p)
  then show ?thesis by (simp add: store_kept_refl)
next
  case (fetch_failed fetched log)
  then show ?thesis by (simp add: store_kept_refl)
next
  case (root_error d log e)
  then show ?thesis by (simp add: store_kept_refl)
next
  case (references_error d log mk db e db' es' np ne)
  have k0: "store_kept (papers_db s) db" using references_error(2) by (rule add_paper_to_db_kept)
  note g1 = process_entries_general[OF updated_from_append_reference references_error(3)]
  have "store_kept (papers_db s) db'" using k0 g1 store_kept_trans by blast
  moreover have "edges s \<subseteq> es'" using g1 by blast
  moreover have "fetched_neighbours net pid s = set (neighbour_ids (list_or_empty (json_references d)))
                                          \<union> set (neighbour_ids (list_or_empty (json_citations d)))"
    using references_error(1) by (simp add: fetched_neighbours_def)
  moreover have "es' \<subseteq> edges s \<union> sorted_pair pid ` (set (neighbour_ids (list_or_empty (json_references d)))
                                          \<union> set (neighbour_ids (list_or_empty (json_citations d))))"
    using g1 by blast
  ultimately show ?thesis using references_error(4) by simp
next
  case (citations_error d log mk db db1 es1 np1 ne1 e db' es' np ne)
  have k0: "store_kept (papers_db s) db" using citations_error(2) by (rule add_paper_to_db_kept)
  note g1 = process_entries_general[OF updated_from_append_reference citations_error(3)]
  note g2 = process_entries_general[OF updated_from_append_citation citations_error(4)]
  have "store_kept (papers_db s) db'" using k0 g1 g2 store_kept_trans by blast
  moreover have "edges s \<subseteq> es'" using g1 g2 by blast
  moreover have "fetched_neighbours net pid s = set (neighbour_ids (list_or_empty (json_references d)))
                                          \<union> set (neighbour_ids (list_or_empty (json_citations d)))"
    using citations_error(1) by (simp add: fetched_neighbours_def)
  moreover have "es' \<subseteq> edges s \<union> sorted_pair pid ` (set (neighbour_ids (list_or_empty (json_references d)))
                                          \<union> set (neighbour_ids (list_or_empty (json_citations d))))"
    using g1 g2 by blast
  ultimately show ?thesis using citations_error(5) by simp
next
  case (completed d log mk db db1 es1 np1 ne1 db' es' np ne msg)
  have k0: "store_kept (papers_db s) db" using completed(3) by (rule add_paper_to_db_kept)
  note g1 = process_entries_general[OF updated_from_append_reference completed(4)]
  note g2 = process_entries_general[OF updated_from_append_citation completed(5)]
  have "store_kept (papers_db s) db'" using k0 g1 g2 store_kept_trans by blast
  moreover have "edges s \<subseteq> es'" using g1 g2 by blast
  moreover have "es' \<subseteq> edges s \<union> sorted_pair pid ` (set (neighbour_ids (list_or_empty (json_references d)))
                                          \<union> set (neighbour_ids (list_or_empty (json_citations d))))"
    using g1 g2 by blast
  moreover have "fetched_neighbours net pid s = set (neighbour_ids (list_or_empty (json_references d)))
                                          \<union> set (neighbour_ids (list_or_empty (json_citations d)))"
    using completed(2) by (simp add: fetched_neighbours_def)
  ultimately show ?thesis using completed(6) by simp
qed


lemma step_general:
  "store_kept (papers_db s) (papers_db (step net (Ingest pid) s)) \<and>
   edges s \<subseteq> edges (step net (Ingest pid) s) \<and>
   edges (step net (Ingest pid) s) \<subseteq> edges s \<union> sorted_pair pid ` fetched_neighbours net pid s"
  using process_main_paper_general[of net pid s] by (cases "process_main_paper net pid s") simp

lemma step_ordered: "ordered_edges (edges s) \<Longrightarrow> ordered_edges (edges (step net op s))"
proof (cases op)
  case (Ingest pid)
  assume o: "ordered_edges (edges s)"
  have "edges (step net (Ingest pid) s) \<subseteq> edges s \<union> range (sorted_pair pid)"
    using step_general[of s net pid] by blast
  moreover have "fst (sorted_pair pid i) \<le> snd (sorted_pair pid i)" for i
    by (rule sorted_pair_ordered) simp
  ultimately show ?thesis using o Ingest
    by (fastforce simp: ordered_edges_def)
next
  case Reset
  then show ?thesis by (simp add: api_clear_def ordered_edges_def)
qed

lemma run_ordered: "ordered_edges (edges s) \<Longrightarrow> ordered_edges (edges (run net ops s))"
  by (induction ops arbitrary: s) (simp_all add: step_ordered)

lemma run_kept:
  "Reset \<notin> set ops \<Longrightarrow> store_kept (papers_db s) (papers_db (run net ops s))"
proof (induction ops arbitrary: s)
  case Nil
  then show ?case by (simp add: store_kept_refl)
next
  case (Cons op ops)
  then obtain pid where op: "op = Ingest pid" by (cases op) auto
  have "store_kept (papers_db s) (papers_db (step net op s))"
    using step_general[of s net pid] op by simp
  moreover have "store_kept (papers_db (step net op s)) (papers_db (run net ops (step net op s)))"
    using Cons by simp
  ultimately show ?case using store_kept_trans by simp
qed

section \<open>Evaluation of examples\<close>

lemmas eval = process_main_paper_def initial_state_def always_def scripted_def payload_def
  entry_def fetch_paper_from_semantic_scholar_def empty_dict_def add_paper_to_db_def
  build_paper_def process_entry_def sorted_pair_def append_reference_def append_citation_def
  Let_def

section \<open>The share of one identifier in the counters\<close>

lemma card_one_out:
  assumes "n \<in> N" and "finite N"
  shows "int (card (N - D)) = (if n \<in> D then 0 else 1) + int (card (N - {n} - D))"
proof (cases "n \<in> D")
  case True
  then have "N - D = N - {n} - D" by auto
  with True show ?thesis by simp
next
  case False
  have "N - D = insert n (N - {n} - D)" using False assms(1) by auto
  moreover have "n \<notin> N - {n} - D" by simp
  moreover have "finite (N - {n} - D)" using assms(2) by simp
  ultimately show ?thesis using False by (simp add: card_insert_disjoint del: Diff_insert2 Diff_insert)
qed

lemma card_one_edge_out:
  assumes "n \<in> N" and "finite N"
  shows "int (card (sorted_pair p ` N - E)) =
     (if contains p n E then 0 else 1) + int (card (sorted_pair p ` (N - {n}) - E))"
proof -
  have "sorted_pair p ` (N - {n}) = sorted_pair p ` N - {sorted_pair p n}"
    by (auto simp: image_iff)
  then show ?thesis
    using card_one_out[of "sorted_pair p n" "sorted_pair p ` N" E] assms
    by (simp add: contains_def)
qed

section \<open>Counters that agree with the edges\<close>

text \<open>
  A call of \<open>process_main_paper\<close> keeps the counters in agreement with the edges, and raises
  no \<open>KeyError\<close>, when the fetched lists do not name the requested identifier and the
  requested identifier is either stored already or the \<open>paperId\<close> of the fetched payload. The
  empty graph and the graph after \<open>api_clear\<close> are in agreement.
\<close>

lemma degree_insert:
  assumes "finite es" and "e \<notin> es"
  shows "degree k (insert e es) = degree k es + (if fst e = k \<or> snd e = k then 1 else 0)"
proof (cases "fst e = k \<or> snd e = k")
  case True
  then have "{x \<in> insert e es. fst x = k \<or> snd x = k} = insert e {x \<in> es. fst x = k \<or> snd x = k}"
    by auto
  moreover have "e \<notin> {x \<in> es. fst x = k \<or> snd x = k}" using assms(2) by simp
  moreover have "finite {x \<in> es. fst x = k \<or> snd x = k}" using assms(1) by simp
  ultimately show ?thesis using True by (simp add: degree_def)
next
  case False
  then have "{x \<in> insert e es. fst x = k \<or> snd x = k} = {x \<in> es. fst x = k \<or> snd x = k}"
    by auto
  then show ?thesis using False by (simp add: degree_def)
qed

lemma degree_absent:
  assumes "consistent db es" and "k \<notin> dom db"
  shows "degree k es = 0"
proof -
  have "{x \<in> es. fst x = k \<or> snd x = k} = {}"
    using assms by (auto simp: consistent_def)
  then show ?thesis unfolding degree_def by (simp only: card.empty)
qed

lemma sorted_pair_ends: "fst (sorted_pair a b) = k \<or> snd (sorted_pair a b) = k \<longleftrightarrow> k = a \<or> k = b"
  by (auto simp: sorted_pair_def)

lemma sorted_pair_fst_snd: "{fst (sorted_pair a b), snd (sorted_pair a b)} = {a, b}"
  by (auto simp: sorted_pair_def)

lemma consistent_appended:
  assumes "consistent db es" and "\<And>i p. edge_count (app i p) = edge_count p"
  shows "consistent (appended app mk i db) es"
  using assms by (auto simp: consistent_def appended_apply split: if_splits)

lemma consistent_neighbour_added:
  assumes "consistent db es"
  shows "consistent (neighbour_added ref i db) es"
proof -
  have "degree i es = 0" if "db i = None" using degree_absent[OF assms] that by (simp add: dom_def)
  then show ?thesis using assms
    by (auto simp: consistent_def neighbour_added_apply build_paper_def split: if_splits)
qed

lemma consistent_new_edge:
  assumes c: "consistent db es" and a: "a \<in> dom db" and b: "b \<in> dom db" and ab: "a \<noteq> b"
    and new: "sorted_pair a b \<notin> es"
  shows "consistent (bump b (bump a db)) (insert (sorted_pair a b) es)"
proof -
  have fin: "finite es" using c by (simp add: consistent_def)
  have deg: "degree k (insert (sorted_pair a b) es) = degree k es + (if k = a \<or> k = b then 1 else 0)" for k
    using degree_insert[OF fin new, of k] sorted_pair_ends[of a b k] by simp
  have ends: "fst (sorted_pair a b) \<in> dom db \<and> snd (sorted_pair a b) \<in> dom db"
    using a b by (auto simp: sorted_pair_def)
  show ?thesis
    unfolding consistent_def
  proof (intro conjI ballI allI impI)
    show "finite (insert (sorted_pair a b) es)" using fin by simp
  next
    fix e assume "e \<in> insert (sorted_pair a b) es"
    then show "fst e \<in> dom (bump b (bump a db))" "snd e \<in> dom (bump b (bump a db))"
      using c ends by (auto simp: consistent_def)
  next
    fix k p assume "bump b (bump a db) k = Some p"
    then show "edge_count p = int (degree k (insert (sorted_pair a b) es))"
      using c ab unfolding deg
      by (auto simp: bump_apply consistent_def split: if_splits)
  qed
qed

lemma process_entry_consistent:
  assumes c: "consistent db es" and pid: "pid \<in> dom db"
    and app: "\<And>i p. edge_count (app i p) = edge_count p"
    and ne: "truthy (dict_get (json_paperId ref)) \<Longrightarrow> the (dict_get (json_paperId ref)) \<noteq> pid"
    and pe: "process_entry app pid mk ref (db, es, np, ne) = (r, (db', es', np', ne'))"
  shows "consistent db' es' \<and> pid \<in> dom db' \<and> (\<forall>k. r \<noteq> Some (KeyError k))"
proof (cases "truthy (dict_get (json_paperId ref))")
  case False
  then show ?thesis using pe c pid by (simp add: process_entry_skip)
next
  case True
  define i where "i = the (dict_get (json_paperId ref))"
  define db1 where "db1 = appended app mk i db"
  define db2 where "db2 = neighbour_added ref i db1"
  have ip: "pid \<noteq> i" using ne[OF True] by (simp add: i_def)
  have c1: "consistent db1 es" unfolding db1_def using c app by (rule consistent_appended)
  have c2: "consistent db2 es" unfolding db2_def using c1 by (rule consistent_neighbour_added)
  have d1: "pid \<in> dom db1" using pid by (simp add: db1_def)
  have d2: "pid \<in> dom db2" "i \<in> dom db2" using d1 by (simp_all add: db2_def)
  have c3: "sorted_pair pid i \<notin> es \<Longrightarrow> consistent (bump i (bump pid db2)) (insert (sorted_pair pid i) es)"
    using consistent_new_edge[OF c2 d2 ip] by simp
  have d3: "\<exists>y. bump i (bump pid db2) pid = Some y"
    using d2 by (auto simp: bump_apply)
  from pe show ?thesis
    unfolding process_entry_eq[OF True] Let_def i_def[symmetric] db1_def[symmetric] db2_def[symmetric]
    using c1 c2 c3 d1 d2 d3 by (auto split: if_splits)
qed

lemma process_entries_consistent:
  assumes app: "\<And>i p. edge_count (app i p) = edge_count p"
  shows "consistent db es \<Longrightarrow> pid \<in> dom db \<Longrightarrow> pid \<notin> set (neighbour_ids refs) \<Longrightarrow>
         process_entries app pid mk refs (db, es, np, ne) = (r, (db', es', np', ne')) \<Longrightarrow>
         consistent db' es' \<and> pid \<in> dom db' \<and> (\<forall>k. r \<noteq> Some (KeyError k))"
proof (induction refs arbitrary: db es np ne)
  case Nil
  then show ?case by simp
next
  case (Cons ref refs)
  obtain r1 db1 es1 np1 ne1 where
    pe: "process_entry app pid mk ref (db, es, np, ne) = (r1, (db1, es1, np1, ne1))"
    by (metis prod_cases4)
  have n1: "truthy (dict_get (json_paperId ref)) \<Longrightarrow> the (dict_get (json_paperId ref)) \<noteq> pid"
    using Cons.prems(3) by (auto simp: neighbour_ids_Cons)
  have n2: "pid \<notin> set (neighbour_ids refs)"
    using Cons.prems(3) by (auto simp: neighbour_ids_Cons split: if_splits)
  note s1 = process_entry_consistent[OF Cons.prems(1,2) app n1 pe]
  show ?case
  proof (cases r1)
    case (Some e)
    with Cons.prems(4) pe s1 show ?thesis by simp
  next
    case None
    with Cons.prems(4) pe have
      "process_entries app pid mk refs (db1, es1, np1, ne1) = (r, (db', es', np', ne'))" by simp
    with Cons.IH[of db1 es1 np1 ne1] s1 n2 show ?thesis by simp
  qed
qed

lemma add_paper_to_db_consistent:
  assumes "consistent db es" and "add_paper_to_db d m db = Inr (k, db')"
  shows "consistent db' es"
proof -
  have z: "degree i es = 0" if "db i = None" for i
    using degree_absent[OF assms(1)] that by (simp add: dom_def)
  show ?thesis using assms z
    by (auto simp: add_paper_to_db_def Let_def consistent_def build_paper_def
        split: if_splits option.splits)
qed

lemma add_paper_to_db_error:
  "add_paper_to_db d m db = Inl e \<Longrightarrow> e = TypeError"
  by (auto simp: add_paper_to_db_def Let_def split: if_splits option.splits)

lemma process_main_paper_consistent:
  assumes c: "consistent (papers_db s) (edges s)"
    and nself: "pid \<notin> fetched_neighbours net pid s"
    and same: "pid \<in> dom (papers_db s) \<or>
               (\<forall>d. fst (fetch_paper_from_semantic_scholar net pid (requests s)) = Some d
                     \<longrightarrow> json_paperId d = Val pid)"
    and run: "process_main_paper net pid s = (out, s')"
  shows "consistent (papers_db s') (edges s') \<and> (\<forall>k. out \<noteq> Inl (KeyError k))"
proof -
  have loops: "consistent db' es' \<and> (\<forall>k. r \<noteq> Some (KeyError k))
               \<and> (pid \<notin> set (neighbour_ids (list_or_empty (json_citations d))) \<and> pid \<in> dom db')"
    if f: "fetch_paper_from_semantic_scholar net pid (requests s) = (Some d, log)"
      and a: "add_paper_to_db d True (papers_db s) = Inr (Some mk, db)"
      and l: "process_entries append_reference pid mk (list_or_empty (json_references d)) (db, edges s, np0, ne0)
                = (r, (db', es', np, ne))"
    for d log mk db r db' es' np ne np0 ne0
  proof -
    have fn: "fetched_neighbours net pid s = set (neighbour_ids (list_or_empty (json_references d)))
                \<union> set (neighbour_ids (list_or_empty (json_citations d)))"
      using f by (simp add: fetched_neighbours_def)
    note root = add_paper_root[OF a]
    have cdb: "consistent db (edges s)" using c a by (rule add_paper_to_db_consistent)
    have "pid \<in> dom db"
    proof (cases "pid \<in> dom (papers_db s)")
      case True
      then show ?thesis using root(3) by auto
    next
      case False
      with same f have "json_paperId d = Val pid" by simp
      then have "mk = pid" using root(2) by simp
      then show ?thesis using root(3) by auto
    qed
    moreover have "pid \<notin> set (neighbour_ids (list_or_empty (json_references d)))"
      using nself fn by simp
    ultimately have "consistent db' es' \<and> pid \<in> dom db' \<and> (\<forall>k. r \<noteq> Some (KeyError k))"
      using process_entries_consistent[OF _ cdb _ _ l] by (simp add: append_reference_def)
    then show ?thesis using nself fn by simp
  qed
  have loops2: "consistent db' es' \<and> (\<forall>k. r \<noteq> Some (KeyError k))"
    if "consistent db1 es1" "pid \<in> dom db1" "pid \<notin> set (neighbour_ids cits)"
      and l: "process_entries append_citation pid mk cits (db1, es1, np1, ne1) = (r, (db', es', np, ne))"
    for mk cits db1 es1 np1 ne1 r db' es' np ne
    using process_entries_consistent[OF _ that(1,2,3) l] by (simp add: append_citation_def)
  from run show ?thesis
  proof (cases rule: process_main_paper_cases)
    case (already_main p)
    then show ?thesis using c by simp
  next
    case (fetch_failed fetched log)
    then show ?thesis using c by auto
  next
    case (root_error d log e)
    then show ?thesis using c add_paper_to_db_error[OF root_error(2)] by simp
  next
    case (references_error d log mk db e db' es' np ne)
    from loops[OF references_error(1,2,3)] references_error(4,5) show ?thesis by simp
  next
    case (citations_error d log mk db db1 es1 np1 ne1 e db' es' np ne)
    from loops[OF citations_error(1,2,3)] have 1: "consistent db1 es1" "pid \<in> dom db1"
      "pid \<notin> set (neighbour_ids (list_or_empty (json_citations d)))" by simp_all
    from loops2[OF 1 citations_error(4)] citations_error(5,6) show ?thesis by simp
  next
    case (completed d log mk db db1 es1 np1 ne1 db' es' np ne msg)
    from loops[OF completed(2,3,4)] have 1: "consistent db1 es1" "pid \<in> dom db1"
      "pid \<notin> set (neighbour_ids (list_or_empty (json_citations d)))" by simp_all
    from loops2[OF 1 completed(5)] completed(6,7) show ?thesis by simp
  qed
qed

lemma consistent_empty: "consistent Map.empty {}"
  by (simp add: consistent_def)

lemma api_clear_consistent: "consistent (papers_db (api_clear s)) (edges (api_clear s))"
  by (simp add: api_clear_def consistent_def)

section \<open>The short-circuit of \<open>process_main_paper\<close>\<close>

text \<open>
  Claim C1, as the code has it: when \<open>paper_id\<close> is already in \<open>papers_db\<close> with
  \<open>is_main\<close> set, \<open>process_main_paper\<close> issues no request to the provider and changes
  nothing (the whole state, trace of requests included, is returned as it was); the result
  has \<open>new_papers = 0\<close>, \<open>new_edges = 0\<close>, the projection of the stored record as
  \<open>paper\<close>, the message \<open>Paper already added\<close>, and \<open>success = False\<close>.
\<close>

theorem already_main_short_circuit:
  assumes "papers_db s x = Some p" and "is_main p"
  shows "process_main_paper net x s =
           (Inr \<lparr>success = False, message = ''Paper already added'',
                 paper = Some (paper_to_dict p), new_papers = 0, new_edges = 0\<rparr>, s)"
  using assms by (simp add: process_main_paper_def)

theorem already_main_short_circuit_witness:
  "papers_db (lone_state ''R'') ''R'' = Some (lone_main ''R'') \<and> is_main (lone_main ''R'') \<and>
   process_main_paper unreachable ''R'' (lone_state ''R'') =
     (Inr \<lparr>success = False, message = ''Paper already added'',
           paper = Some (paper_to_dict (lone_main ''R'')), new_papers = 0, new_edges = 0\<rparr>,
      lone_state ''R'')"
proof -
  have a: "papers_db (lone_state ''R'') ''R'' = Some (lone_main ''R'')"
    by (simp add: lone_state_def)
  have b: "is_main (lone_main ''R'')"
    by (simp add: lone_main_def build_paper_def)
  show ?thesis using a b already_main_short_circuit [OF a b, of unreachable] by simp
qed

text \<open>
  The claim as the specification words it asks for a success result. The state reached by
  adding \<open>R\<close> once holds \<open>R\<close> as a main paper; adding it again gives \<open>success = False\<close>.
\<close>

theorem already_main_is_not_success:
  "map_sum id success
     (fst (process_main_paper (always (payload ''R'' [] [])) ''R''
            (snd (process_main_paper (always (payload ''R'' [] [])) ''R'' initial_state))))
   = Inr False"
  by (simp add: process_main_paper_def initial_state_def always_def payload_def
      fetch_paper_from_semantic_scholar_def empty_dict_def add_paper_to_db_def build_paper_def
      Let_def)

section \<open>Counters and self-references\<close>

text \<open>
  Claim C2 asks that \<open>edge_count\<close> of every stored paper equal the number of edges that
  contain its identifier, also when a list of the root names the root itself. The loops
  increment \<open>papers_db[paper_id].edge_count\<close> and \<open>papers_db[ref_id].edge_count\<close> for
  every new edge; when \<open>ref_id\<close> is \<open>paper_id\<close> both increments reach the same record.
  Adding \<open>R\<close>, whose reference list names \<open>R\<close>, to the empty graph leaves one edge,
  \<open>(R, R)\<close>, and \<open>edge_count = 2\<close> on \<open>R\<close>, which one edge contains. (Lemma
  \<open>process_main_paper_consistent\<close> above gives the calls that do keep the counters right.)
\<close>

theorem self_reference_counted_twice:
  "edges self_cited = {(''R'', ''R'')} \<and>
   map_option edge_count (papers_db self_cited ''R'') = Some 2 \<and>
   degree ''R'' (edges self_cited) = 1"
proof -
  have e: "edges self_cited = {(''R'', ''R'')}"
    by (simp add: self_cited_def eval)
  have c: "map_option edge_count (papers_db self_cited ''R'') = Some 2"
    by (simp add: self_cited_def eval)
  have "{e \<in> {(''R'', ''R'')}. fst e = ''R'' \<or> snd e = ''R''} = {(''R'', ''R'')}" by auto
  then have d: "degree ''R'' (edges self_cited) = 1"
    unfolding degree_def e by simp
  show ?thesis using e c d by simp
qed

text \<open>
  The counters also fall behind when the provider names the paper by another identifier
  than the one requested (the provider resolves several identifier schemes to its own
  \<open>paperId\<close>): the record is stored under the provider's identifier, the edge is built
  from the requested one, and \<open>papers_db[paper_id]\<close> raises \<open>KeyError\<close> after the edge
  has been added and before any counter has been incremented.
\<close>

lemma requested_key_missing:
  "fst (process_main_paper (always (payload ''P'' [''A''] [])) ''arXiv:1'' initial_state)
     = Inl (KeyError ''arXiv:1'') \<and>
   edges (snd (process_main_paper (always (payload ''P'' [''A''] [])) ''arXiv:1'' initial_state))
     = {(''A'', ''arXiv:1'')} \<and>
   map_option edge_count
     (papers_db (snd (process_main_paper (always (payload ''P'' [''A''] [])) ''arXiv:1'' initial_state)) ''A'')
     = Some 0"
  by (simp add: eval)

section \<open>Self-loops\<close>

text \<open>
  Claim C3, as the code has it: a call of \<open>process_main_paper\<close> whose fetched payload does
  not name the requested identifier in its reference or citation list inserts no
  self-loop, whatever its outcome: the self-loops of \<open>edges\<close> after the call are those
  before it.
\<close>

theorem no_new_self_loop:
  assumes "process_main_paper net pid s = (out, s')" and "pid \<notin> fetched_neighbours net pid s"
  shows "{e \<in> edges s'. fst e = snd e} = {e \<in> edges s. fst e = snd e}"
proof -
  have g: "edges s \<subseteq> edges s'"
    "edges s' \<subseteq> edges s \<union> sorted_pair pid ` fetched_neighbours net pid s"
    using process_main_paper_general[OF assms(1)] by simp_all
  have "e \<in> edges s" if e: "e \<in> edges s'" "fst e = snd e" for e
  proof (rule ccontr)
    assume "e \<notin> edges s"
    with g(2) e(1) obtain i where i: "i \<in> fetched_neighbours net pid s" "e = sorted_pair pid i"
      by auto
    then have "sorted_pair pid i = (fst e, fst e)" using e(2) by (metis prod.collapse)
    then have "i = pid" by (simp add: sorted_pair_loop)
    with i(1) assms(2) show False by simp
  qed
  then show ?thesis using g(1) by auto
qed

theorem no_new_self_loop_witness:
  "''R'' \<notin> fetched_neighbours (always (payload ''R'' [''A''] [])) ''R'' initial_state \<and>
   {e \<in> edges (snd (process_main_paper (always (payload ''R'' [''A''] [])) ''R'' initial_state)).
      fst e = snd e} = {}"
proof -
  have n: "''R'' \<notin> fetched_neighbours (always (payload ''R'' [''A''] [])) ''R'' initial_state"
    by (simp add: fetched_neighbours_def fetch_paper_from_semantic_scholar_def always_def
        payload_def entry_def neighbour_ids_def)
  have r: "process_main_paper (always (payload ''R'' [''A''] [])) ''R'' initial_state
             = (fst (process_main_paper (always (payload ''R'' [''A''] [])) ''R'' initial_state),
                snd (process_main_paper (always (payload ''R'' [''A''] [])) ''R'' initial_state))"
    by simp
  show ?thesis using n no_new_self_loop [OF r n] by (simp add: initial_state_def)
qed

text \<open>
  The claim as the specification words it covers a payload whose reference list names the
  root. The loops have no check for it: adding such a paper to the empty graph inserts
  \<open>(R, R)\<close> and counts it as a new edge.
\<close>

theorem self_reference_inserts_loop:
  "(''R'', ''R'') \<notin> edges initial_state \<and>
   map_sum id new_edges (fst (process_main_paper (always (payload ''R'' [''R''] [])) ''R'' initial_state))
     = Inr 1 \<and>
   (''R'', ''R'') \<in> edges (snd (process_main_paper (always (payload ''R'' [''R''] [])) ''R'' initial_state))"
  by (simp add: eval)

section \<open>What changes in a stored record\<close>

text \<open>
  Claim C4, as the code has it: through any sequence of calls of \<open>process_main_paper\<close>
  (whatever their outcomes), a record once stored stays stored under its key, and only these
  fields of it change: \<open>is_main\<close>, which is never cleared; \<open>edge_count\<close>, which never
  decreases; and \<open>references\<close> and \<open>citations\<close>, to which identifiers are appended at the
  end. The fields \<open>paper_id\<close>, \<open>title\<close>, \<open>authors\<close>, \<open>year\<close>, \<open>publication_date\<close>,
  \<open>citation_count\<close> and \<open>url\<close> keep the values of the first write.
\<close>

theorem stored_paper_frame:
  assumes "papers_db s k = Some p" and "Reset \<notin> set ops"
  shows "\<exists>p'. papers_db (run net ops s) k = Some p' \<and> updated_from p p'"
  using run_kept[OF assms(2), of s net] assms(1) by (simp add: store_kept_def)

theorem stored_paper_frame_witness:
  "\<exists>p. papers_db (run two_papers [Ingest ''R''] initial_state) ''A'' = Some p \<and>
       Reset \<notin> set [Ingest ''A''] \<and>
       (\<exists>p'. papers_db (run two_papers [Ingest ''A''] (run two_papers [Ingest ''R''] initial_state)) ''A''
                = Some p' \<and> updated_from p p')"
proof -
  obtain p where p: "papers_db (run two_papers [Ingest ''R''] initial_state) ''A'' = Some p"
    by (simp add: two_papers_def eval)
  have r: "Reset \<notin> set [Ingest ''A'']" by simp
  show ?thesis using p r stored_paper_frame [OF p r, of two_papers] by blast
qed

text \<open>
  The claim as the specification words it allows no change of \<open>references\<close>. A paper first
  stored as a neighbour has an empty list; when it is added as a main paper later, the
  loop appends to it.
\<close>

theorem references_change_after_creation:
  "map_option references (papers_db (run two_papers [Ingest ''R''] initial_state) ''A'') = Some [] \<and>
   map_option references (papers_db (run two_papers [Ingest ''R'', Ingest ''A''] initial_state) ''A'')
     = Some [''B'']"
  by (simp add: two_papers_def eval)

section \<open>\<open>add_paper_to_db\<close> on a stored identifier\<close>

text \<open>
  Claim C5: when the identifier of the payload is already a key of \<open>papers_db\<close> (and a
  \<open>Paper\<close> can be built from the payload, that is, its \<open>authors\<close> is not \<open>null\<close>),
  \<open>add_paper_to_db\<close> returns the stored record and changes nothing in \<open>papers_db\<close> but the
  \<open>is_main\<close> flag of that record, which becomes the disjunction of its old value and the
  argument: no field of the payload is written, and the flag is never cleared.
\<close>

theorem add_paper_to_db_existing:
  assumes "db k = Some p" and "json_paperId d = Val k" and "k \<noteq> []" and "json_authors d \<noteq> Null"
  shows "add_paper_to_db d as_main db = Inr (Some k, db(k \<mapsto> p\<lparr>is_main := is_main p \<or> as_main\<rparr>))"
proof -
  obtain as where as: "dict_get_default (json_authors d) [] = Some as"
    using assms(4) by (cases "json_authors d") auto
  have triv: "db(k \<mapsto> p\<lparr>is_main := is_main p\<rparr>) = db"
    using assms(1) by (simp add: map_upd_triv)
  show ?thesis
  proof (cases as_main)
    case True
    then show ?thesis using assms as by (simp add: add_paper_to_db_def Let_def)
  next
    case False
    then show ?thesis using assms as triv by (simp add: add_paper_to_db_def Let_def)
  qed
qed

text \<open>
  An instance: a payload with another title for a stored main paper, added with
  \<open>is_main = False\<close>, leaves \<open>papers_db\<close> as it was, the flag still set.
\<close>

theorem add_paper_to_db_existing_witness:
  "add_paper_to_db ((entry ''A'')\<lparr>json_title := Val ''Another title''\<rparr>) False [''A'' \<mapsto> lone_main ''A'']
     = Inr (Some ''A'', [''A'' \<mapsto> lone_main ''A''])"
proof -
  have "[''A'' \<mapsto> lone_main ''A''] ''A'' = Some (lone_main ''A'')" by simp
  moreover have "json_paperId ((entry ''A'')\<lparr>json_title := Val ''Another title''\<rparr>) = Val ''A''"
    by (simp add: entry_def)
  moreover have "''A'' \<noteq> []" by simp
  moreover have "json_authors ((entry ''A'')\<lparr>json_title := Val ''Another title''\<rparr>) \<noteq> Null"
    by (simp add: entry_def)
  ultimately show ?thesis
    using add_paper_to_db_existing
      [of "[''A'' \<mapsto> lone_main ''A'']" "''A''" "lone_main ''A''"
          "(entry ''A'')\<lparr>json_title := Val ''Another title''\<rparr>" False]
    by (simp add: lone_main_def build_paper_def)
qed

section \<open>Failed fetches\<close>

text \<open>
  Claim C6: when \<open>process_main_paper\<close> goes to the provider (the identifier is not stored
  as a main paper) and the fetch returns nothing, or a payload with no truthy \<open>paperId\<close>,
  the result has \<open>success = False\<close>, one of the messages
  \<open>Failed to fetch paper from Semantic Scholar\<close> and \<open>Failed to process paper data\<close>, no
  paper and both counters \<open>0\<close>; \<open>papers_db\<close> and \<open>edges\<close> are as before the call (only the
  trace of requests has grown).
\<close>

theorem failed_fetch_leaves_state:
  assumes nm: "\<forall>p. papers_db s x = Some p \<longrightarrow> \<not> is_main p"
    and f: "fetch_paper_from_semantic_scholar net x (requests s) = (fetched, log)"
    and bad: "fetched = None \<or> \<not> truthy (dict_get (json_paperId (the fetched)))"
  shows "process_main_paper net x s =
     (Inr \<lparr>success = False,
           message = (if fetched = None \<or> empty_dict (the fetched)
                      then ''Failed to fetch paper from Semantic Scholar''
                      else ''Failed to process paper data''),
           paper = None, new_papers = 0, new_edges = 0\<rparr>,
      s\<lparr>requests := log\<rparr>)"
proof -
  have sc: "\<not> (case papers_db s x of Some p \<Rightarrow> is_main p | None \<Rightarrow> False)"
    using nm by (auto split: option.splits)
  show ?thesis
  proof (cases fetched)
    case None
    then show ?thesis using sc f by (simp add: process_main_paper_def)
  next
    case (Some d)
    with bad have nt: "\<not> truthy (dict_get (json_paperId d))" by simp
    show ?thesis
    proof (cases "empty_dict d")
      case True
      then show ?thesis using sc f Some by (simp add: process_main_paper_def)
    next
      case False
      then show ?thesis using sc f Some nt
        by (simp add: process_main_paper_def add_paper_to_db_def Let_def)
    qed
  qed
qed

text \<open>
  An instance: an unreachable provider, and a graph that holds one paper.
\<close>

theorem failed_fetch_leaves_state_witness:
  "process_main_paper unreachable ''R'' (lone_state ''A'') =
     (Inr \<lparr>success = False, message = ''Failed to fetch paper from Semantic Scholar'',
           paper = None, new_papers = 0, new_edges = 0\<rparr>,
      \<lparr>papers_db = [''A'' \<mapsto> lone_main ''A''], edges = {},
       requests = [fetch_url ''A'', fetch_url ''R'']\<rparr>)"
proof -
  have nm: "\<forall>p. papers_db (lone_state ''A'') ''R'' = Some p \<longrightarrow> \<not> is_main p"
    by (simp add: lone_state_def)
  have f: "fetch_paper_from_semantic_scholar unreachable ''R'' (requests (lone_state ''A''))
             = (None, [fetch_url ''A'', fetch_url ''R''])"
    by (simp add: fetch_paper_from_semantic_scholar_def unreachable_def lone_state_def)
  show ?thesis
    using failed_fetch_leaves_state [OF nm f] by (simp add: lone_state_def)
qed

section \<open>The scenario of one root with three neighbours\<close>

lemma fetch_ok:
  "net log (fetch_url pid) = Response 200 d \<Longrightarrow>
   fetch_paper_from_semantic_scholar net pid log = (Some d, log @ [fetch_url pid])"
  by (simp add: fetch_paper_from_semantic_scholar_def)

text \<open>
  Claim C7: on the empty graph, adding \<open>R\<close> when the provider answers with the payload of
  \<open>R\<close>, references \<open>[A, B]\<close> and citations \<open>[B, C]\<close> (four distinct non-empty
  identifiers; the entries that are stored have an \<open>authors\<close> that is not \<open>null\<close>) succeeds;
  \<open>papers_db\<close> then holds exactly \<open>R\<close>, \<open>A\<close>, \<open>B\<close>, \<open>C\<close>, \<open>edges\<close> exactly the three
  sorted pairs of \<open>R\<close> with \<open>A\<close>, \<open>B\<close>, \<open>C\<close>, both counters of the result are \<open>3\<close>,
  \<open>edge_count\<close> is \<open>3\<close> on \<open>R\<close> and \<open>1\<close> on \<open>B\<close>, and the statistics are \<open>4\<close> papers,
  \<open>1\<close> main paper, \<open>3\<close> edges.
\<close>

theorem root_with_three_neighbours:
  assumes empty: "papers_db s = Map.empty" "edges s = {}"
    and net: "net (requests s) (fetch_url R) = Response 200 d"
    and d: "json_paperId d = Val R" "json_authors d \<noteq> Null"
           "json_references d = Val [a, b]" "json_citations d = Val [b', c]"
    and a: "json_paperId a = Val A" "json_authors a \<noteq> Null"
    and b: "json_paperId b = Val B" "json_authors b \<noteq> Null"
    and b': "json_paperId b' = Val B"
    and c: "json_paperId c = Val C" "json_authors c \<noteq> Null"
    and ne: "R \<noteq> []" "A \<noteq> []" "B \<noteq> []" "C \<noteq> []"
    and dist: "distinct [R, A, B, C]"
  shows "\<exists>r s'. process_main_paper net R s = (Inr r, s') \<and> success r \<and>
           dom (papers_db s') = {R, A, B, C} \<and> new_papers r = 3 \<and>
           edges s' = {sorted_pair R A, sorted_pair R B, sorted_pair R C} \<and> card (edges s') = 3 \<and>
           new_edges r = 3 \<and>
           map_option edge_count (papers_db s' R) = Some 3 \<and>
           map_option edge_count (papers_db s' B) = Some 1 \<and>
           api_get_papers_stats s' = \<lparr>total_papers = 4, main_papers = 1, total_edges = 3\<rparr>"
proof -
  have neq: "R \<noteq> A" "A \<noteq> R" "R \<noteq> B" "B \<noteq> R" "R \<noteq> C" "C \<noteq> R"
    "A \<noteq> B" "B \<noteq> A" "A \<noteq> C" "C \<noteq> A" "B \<noteq> C" "C \<noteq> B"
    using dist by auto
  have t: "truthy (dict_get (json_paperId a))" "truthy (dict_get (json_paperId b))"
    "truthy (dict_get (json_paperId b'))" "truthy (dict_get (json_paperId c))"
    using a b b' c ne by simp_all
  define db0 where "db0 = [R \<mapsto> build_paper d R (names_of d) True]"
  define db1 where "db1 = bump A (bump R (neighbour_added a A (appended append_reference R A db0)))"
  define db2 where "db2 = bump B (bump R (neighbour_added b B (appended append_reference R B db1)))"
  define db3 where "db3 = neighbour_added b' B (appended append_citation R B db2)"
  define db4 where "db4 = bump C (bump R (neighbour_added c C (appended append_citation R C db3)))"
  note dbs = db4_def db3_def db2_def db1_def db0_def
  note app = appended_apply neighbour_added_apply bump_apply
  have nsc: "\<not> (case papers_db s R of Some p \<Rightarrow> is_main p | None \<Rightarrow> False)"
    using empty by simp
  have fetch: "fetch_paper_from_semantic_scholar net R (requests s) = (Some d, requests s @ [fetch_url R])"
    using net by (rule fetch_ok)
  have ned: "\<not> empty_dict d" using d by (simp add: empty_dict_def)
  have root: "add_paper_to_db d True (papers_db s) = Inr (Some R, db0)"
    using d ne empty by (simp add: add_paper_new db0_def)
  have l1: "process_entries append_reference R R [a, b] (db0, {}, 0, 0)
              = (None, (db2, {sorted_pair R B, sorted_pair R A}, 2, 2))"
    using a b neq unfolding dbs
    by (simp add: process_entry_eq[OF t(1)] process_entry_eq[OF t(2)] Let_def app)
  have l2: "process_entries append_citation R R [b', c] (db2, {sorted_pair R B, sorted_pair R A}, 2, 2)
              = (None, (db4, {sorted_pair R C, sorted_pair R B, sorted_pair R A}, 3, 3))"
    using b' c neq unfolding dbs
    by (simp add: process_entry_eq[OF t(3)] process_entry_eq[OF t(4)] Let_def app)
  define s' where "s' = s\<lparr>requests := requests s @ [fetch_url R], papers_db := db4,
                          edges := {sorted_pair R C, sorted_pair R B, sorted_pair R A}\<rparr>"
  have run: "\<exists>r. process_main_paper net R s = (Inr r, s') \<and> success r \<and> new_papers r = 3 \<and> new_edges r = 3"
    using nsc fetch ned root l1 l2 d empty
    by (simp add: process_main_paper_def s'_def)
  have dom4: "dom (papers_db s') = {R, A, B, C}"
    unfolding s'_def dbs by auto
  have es: "edges s' = {sorted_pair R A, sorted_pair R B, sorted_pair R C}"
    unfolding s'_def by auto
  have ces: "card (edges s') = 3"
    unfolding es using neq by simp
  have ecR: "map_option edge_count (papers_db s' R) = Some 3"
    unfolding s'_def dbs using neq by (simp add: app build_paper_def append_reference_def append_citation_def)
  have ecB: "map_option edge_count (papers_db s' B) = Some 1"
    unfolding s'_def dbs using neq by (simp add: app build_paper_def append_reference_def append_citation_def)
  have mains: "{k \<in> dom (papers_db s'). is_main (the (papers_db s' k))} = {R}"
    unfolding dom4 unfolding s'_def dbs using neq
    by (auto simp: app build_paper_def append_reference_def append_citation_def)
  have cm: "card {k \<in> dom (papers_db s'). is_main (the (papers_db s' k))} = 1"
    by (simp only: mains) simp
  have cd: "card (dom (papers_db s')) = 4"
    unfolding dom4 using neq by simp
  have stats: "api_get_papers_stats s' = \<lparr>total_papers = 4, main_papers = 1, total_edges = 3\<rparr>"
    unfolding api_get_papers_stats_def by (simp only: cm cd ces)
  show ?thesis using run dom4 es ces ecR ecB stats by blast
qed

text \<open>
  The scenario on the identifiers \<open>R\<close>, \<open>A\<close>, \<open>B\<close>, \<open>C\<close> themselves.
\<close>

theorem root_with_three_neighbours_witness:
  "\<exists>r s'. process_main_paper (always (payload ''R'' [''A'', ''B''] [''B'', ''C''])) ''R'' initial_state
              = (Inr r, s') \<and> success r \<and>
           dom (papers_db s') = {''R'', ''A'', ''B'', ''C''} \<and> new_papers r = 3 \<and>
           edges s' = {sorted_pair ''R'' ''A'', sorted_pair ''R'' ''B'', sorted_pair ''R'' ''C''} \<and>
           card (edges s') = 3 \<and> new_edges r = 3 \<and>
           map_option edge_count (papers_db s' ''R'') = Some 3 \<and>
           map_option edge_count (papers_db s' ''B'') = Some 1 \<and>
           api_get_papers_stats s' = \<lparr>total_papers = 4, main_papers = 1, total_edges = 3\<rparr>"
  by (rule root_with_three_neighbours [where d = "payload ''R'' [''A'', ''B''] [''B'', ''C'']"
        and a = "entry ''A''" and b = "entry ''B''" and b' = "entry ''B''" and c = "entry ''C''"])
     (simp_all add: initial_state_def always_def payload_def entry_def)

section \<open>A neighbour in both lists\<close>

text \<open>
  Claim C8, as the code has it: when a call of \<open>process_main_paper\<close> completes and an
  identifier \<open>n\<close>, other than the requested one, is in both lists of the fetched payload,
  then \<open>n\<close> is a key of \<open>papers_db\<close> afterwards and adds \<open>1\<close> to \<open>new_papers\<close> when it
  was not stored before and \<open>0\<close> when it was; the edge of the requested identifier and
  \<open>n\<close> is in \<open>edges\<close> afterwards and adds \<open>1\<close> to \<open>new_edges\<close> when it was not there
  before and \<open>0\<close> when it was; and \<open>n\<close> is in both \<open>references\<close> and \<open>citations\<close> of the
  main paper. (The rest of each counter is the count for the other identifiers.)
\<close>

theorem shared_neighbour:
  assumes run: "process_main_paper net pid s = (Inr r, s')" and ok: "success r"
    and f: "fetch_paper_from_semantic_scholar net pid (requests s) = (Some d, log)"
    and nr: "n \<in> set (neighbour_ids (list_or_empty (json_references d)))"
    and nc: "n \<in> set (neighbour_ids (list_or_empty (json_citations d)))"
    and np: "n \<noteq> pid"
  defines "mk \<equiv> the (dict_get (json_paperId d))"
    and "N \<equiv> set (neighbour_ids (list_or_empty (json_references d)))
              \<union> set (neighbour_ids (list_or_empty (json_citations d)))"
  shows "n \<in> dom (papers_db s') \<and>
         new_papers r = (if n \<in> insert mk (dom (papers_db s)) then 0 else 1)
                        + int (card (N - {n} - insert mk (dom (papers_db s)))) \<and>
         contains pid n (edges s') \<and>
         new_edges r = (if contains pid n (edges s) then 0 else 1)
                       + int (card (sorted_pair pid ` (N - {n}) - edges s)) \<and>
         (\<exists>m. papers_db s' mk = Some m \<and> n \<in> set (references m) \<and> n \<in> set (citations m))"
proof -
  note c = ingest_completed[OF run ok f, folded mk_def]
  have nN: "n \<in> N" "finite N" using nr by (simp_all add: N_def)
  have 1: "n \<in> dom (papers_db s')" using c(2) nr by blast
  have 2: "new_papers r = (if n \<in> insert mk (dom (papers_db s)) then 0 else 1)
                        + int (card (N - {n} - insert mk (dom (papers_db s))))"
    using c(4) card_one_out[OF nN, of "insert mk (dom (papers_db s))"] by (simp only: N_def)
  have 3: "contains pid n (edges s')" using c(3) nr by (simp add: contains_def)
  have 4: "new_edges r = (if contains pid n (edges s) then 0 else 1)
                       + int (card (sorted_pair pid ` (N - {n}) - edges s))"
    using c(5) card_one_edge_out[OF nN, of pid "edges s"] by (simp only: N_def)
  have 5: "\<exists>m. papers_db s' mk = Some m \<and> n \<in> set (references m) \<and> n \<in> set (citations m)"
    using c(6) nr nc by auto
  show ?thesis using 1 2 3 4 5 by blast
qed

theorem shared_neighbour_witness:
  "\<exists>r s'. process_main_paper (always (payload ''R'' [''N''] [''N''])) ''R'' initial_state = (Inr r, s') \<and>
           success r \<and> ''N'' \<in> dom (papers_db s') \<and> new_papers r = 1 \<and>
           contains ''R'' ''N'' (edges s') \<and> new_edges r = 1 \<and>
           (\<exists>m. papers_db s' ''R'' = Some m \<and> ''N'' \<in> set (references m) \<and> ''N'' \<in> set (citations m))"
proof -
  obtain r s' where run:
      "process_main_paper (always (payload ''R'' [''N''] [''N''])) ''R'' initial_state = (Inr r, s')"
    and ok: "success r"
    by (simp add: eval)
  have f: "fetch_paper_from_semantic_scholar (always (payload ''R'' [''N''] [''N''])) ''R''
             (requests initial_state) = (Some (payload ''R'' [''N''] [''N'']), [fetch_url ''R''])"
    by (simp add: fetch_paper_from_semantic_scholar_def always_def initial_state_def)
  have nr: "''N'' \<in> set (neighbour_ids (list_or_empty (json_references (payload ''R'' [''N''] [''N'']))))"
    by (simp add: payload_def entry_def neighbour_ids_def)
  have nc: "''N'' \<in> set (neighbour_ids (list_or_empty (json_citations (payload ''R'' [''N''] [''N'']))))"
    by (simp add: payload_def entry_def neighbour_ids_def)
  have np: "''N'' \<noteq> ''R''" by simp
  have "''N'' \<in> dom (papers_db s') \<and> new_papers r = 1 \<and>
        contains ''R'' ''N'' (edges s') \<and> new_edges r = 1 \<and>
        (\<exists>m. papers_db s' ''R'' = Some m \<and> ''N'' \<in> set (references m) \<and> ''N'' \<in> set (citations m))"
    using shared_neighbour [OF run ok f nr nc np]
    by (simp add: payload_def entry_def neighbour_ids_def initial_state_def contains_def)
  then show ?thesis using run ok by blast
qed

text \<open>
  The claim as the specification words it has \<open>new_edges\<close> incremented exactly once for
  \<open>n\<close> in every such call. When the edge is already there, because \<open>n\<close> was added as a
  main paper citing \<open>R\<close> before, the call that adds \<open>R\<close> succeeds with \<open>new_edges = 0\<close>.
\<close>

theorem existing_edge_not_counted:
  "map_sum id (\<lambda>r. (success r, new_edges r))
     (fst (process_main_paper met_before ''R'' (run met_before [Ingest ''N''] initial_state)))
   = Inr (True, 0)"
  by (simp add: met_before_def eval)

section \<open>Edges as unordered pairs\<close>

text \<open>
  Claim C9: in every state reached from the empty graph by calls of \<open>process_main_paper\<close>
  and \<open>api_clear\<close>, the membership test of the loops gives the same answer for \<open>(a, b)\<close>
  and \<open>(b, a)\<close>, and at most one element of \<open>edges\<close> is one of the pairs \<open>(a, b)\<close>,
  \<open>(b, a)\<close>.
\<close>

theorem edge_symmetric_unique:
  "contains a b (edges (run net ops initial_state)) = contains b a (edges (run net ops initial_state)) \<and>
   card {e \<in> edges (run net ops initial_state). e = (a, b) \<or> e = (b, a)} \<le> 1"
proof -
  define es where "es = edges (run net ops initial_state)"
  have "ordered_edges (edges initial_state)" by (simp add: initial_state_def ordered_edges_def)
  then have o: "ordered_edges es" unfolding es_def by (rule run_ordered)
  have sym: "contains a b es = contains b a es"
    by (simp add: contains_def sorted_pair_commute[of a b])
  have "{e \<in> es. e = (a, b) \<or> e = (b, a)} \<subseteq> {sorted_pair a b}"
  proof
    fix e assume "e \<in> {e \<in> es. e = (a, b) \<or> e = (b, a)}"
    then have e: "e \<in> es" "e = (a, b) \<or> e = (b, a)" by auto
    then have "fst e \<le> snd e" using o by (auto simp: ordered_edges_def)
    with e(2) show "e \<in> {sorted_pair a b}" by (auto simp: sorted_pair_def)
  qed
  then have "card {e \<in> es. e = (a, b) \<or> e = (b, a)} \<le> card {sorted_pair a b}"
    by (intro card_mono) auto
  then show ?thesis using sym by (simp add: es_def)
qed

text \<open>
  An instance, in which the edge is present.
\<close>

theorem edge_symmetric_unique_witness:
  "contains ''A'' ''R'' (edges (run (always (payload ''R'' [''A''] [])) [Ingest ''R''] initial_state))
     = contains ''R'' ''A'' (edges (run (always (payload ''R'' [''A''] [])) [Ingest ''R''] initial_state)) \<and>
   card {e \<in> edges (run (always (payload ''R'' [''A''] [])) [Ingest ''R''] initial_state).
           e = (''A'', ''R'') \<or> e = (''R'', ''A'')} \<le> 1 \<and>
   contains ''R'' ''A'' (edges (run (always (payload ''R'' [''A''] [])) [Ingest ''R''] initial_state))"
proof -
  have "contains ''R'' ''A'' (edges (run (always (payload ''R'' [''A''] [])) [Ingest ''R''] initial_state))"
    by (simp add: contains_def eval)
  then show ?thesis
    using edge_symmetric_unique [of "''A''" "''R''" "always (payload ''R'' [''A''] [])" "[Ingest ''R'']"]
    by blast
qed

section \<open>A neighbour that occurs twice in a list\<close>

text \<open>
  When a call of \<open>process_main_paper\<close> completes and an identifier \<open>n\<close> occurs at least
  twice in the reference list (or in the citation list) of the fetched payload, every
  occurrence is appended to the corresponding list of the main paper, while \<open>n\<close> adds at most
  \<open>1\<close> to \<open>new_papers\<close> and at most \<open>1\<close> to \<open>new_edges\<close>.
\<close>

lemma repeated_neighbour_completed:
  assumes run: "process_main_paper net pid s = (Inr r, s')" and ok: "success r"
    and f: "fetch_paper_from_semantic_scholar net pid (requests s) = (Some d, log)"
    and twice: "2 \<le> count_list (neighbour_ids (list_or_empty (json_references d))) n
              \<or> 2 \<le> count_list (neighbour_ids (list_or_empty (json_citations d))) n"
  defines "mk \<equiv> the (dict_get (json_paperId d))"
    and "N \<equiv> set (neighbour_ids (list_or_empty (json_references d)))
              \<union> set (neighbour_ids (list_or_empty (json_citations d)))"
  shows "(\<exists>m. papers_db s' mk = Some m \<and>
              count_list (references m) n =
                count_list (case papers_db s mk of None \<Rightarrow> [] | Some old \<Rightarrow> references old) n
                + count_list (neighbour_ids (list_or_empty (json_references d))) n \<and>
              count_list (citations m) n =
                count_list (case papers_db s mk of None \<Rightarrow> [] | Some old \<Rightarrow> citations old) n
                + count_list (neighbour_ids (list_or_empty (json_citations d))) n) \<and>
         new_papers r = (if n \<in> insert mk (dom (papers_db s)) then 0 else 1)
                        + int (card (N - {n} - insert mk (dom (papers_db s)))) \<and>
         new_edges r = (if contains pid n (edges s) then 0 else 1)
                       + int (card (sorted_pair pid ` (N - {n}) - edges s))"
proof -
  note c = ingest_completed[OF run ok f, folded mk_def]
  have "n \<in> set (neighbour_ids (list_or_empty (json_references d)))
      \<or> n \<in> set (neighbour_ids (list_or_empty (json_citations d)))"
    using twice count_list_0_iff[of _ n] by (metis not_numeral_le_zero)
  then have nN: "n \<in> N" "finite N" by (auto simp: N_def)
  have 1: "\<exists>m. papers_db s' mk = Some m \<and>
              count_list (references m) n =
                count_list (case papers_db s mk of None \<Rightarrow> [] | Some old \<Rightarrow> references old) n
                + count_list (neighbour_ids (list_or_empty (json_references d))) n \<and>
              count_list (citations m) n =
                count_list (case papers_db s mk of None \<Rightarrow> [] | Some old \<Rightarrow> citations old) n
                + count_list (neighbour_ids (list_or_empty (json_citations d))) n"
    using c(6) by auto
  have 2: "new_papers r = (if n \<in> insert mk (dom (papers_db s)) then 0 else 1)
                        + int (card (N - {n} - insert mk (dom (papers_db s))))"
    using c(4) card_one_out[OF nN, of "insert mk (dom (papers_db s))"] by (simp only: N_def)
  have 3: "new_edges r = (if contains pid n (edges s) then 0 else 1)
                       + int (card (sorted_pair pid ` (N - {n}) - edges s))"
    using c(5) card_one_edge_out[OF nN, of pid "edges s"] by (simp only: N_def)
  show ?thesis using 1 2 3 by blast
qed

text \<open>
  An instance: \<open>N\<close> twice in the reference list of \<open>R\<close>.
\<close>

lemma repeated_neighbour_completed_example:
  "\<exists>r s'. process_main_paper (always (payload ''R'' [''N'', ''N''] [])) ''R'' initial_state = (Inr r, s') \<and>
           success r \<and>
           (\<exists>m. papers_db s' ''R'' = Some m \<and> count_list (references m) ''N'' = 2 \<and>
                count_list (citations m) ''N'' = 0) \<and>
           new_papers r = 1 \<and> new_edges r = 1"
proof -
  obtain r s' where run:
      "process_main_paper (always (payload ''R'' [''N'', ''N''] [])) ''R'' initial_state = (Inr r, s')"
    and ok: "success r"
    by (simp add: eval)
  have f: "fetch_paper_from_semantic_scholar (always (payload ''R'' [''N'', ''N''] [])) ''R''
             (requests initial_state) = (Some (payload ''R'' [''N'', ''N''] []), [fetch_url ''R''])"
    by (simp add: fetch_paper_from_semantic_scholar_def always_def initial_state_def)
  have twice:
    "2 \<le> count_list (neighbour_ids (list_or_empty (json_references (payload ''R'' [''N'', ''N''] [])))) ''N''
     \<or> 2 \<le> count_list (neighbour_ids (list_or_empty (json_citations (payload ''R'' [''N'', ''N''] [])))) ''N''"
    by (simp add: payload_def entry_def neighbour_ids_def)
  have "(\<exists>m. papers_db s' ''R'' = Some m \<and> count_list (references m) ''N'' = 2 \<and>
                count_list (citations m) ''N'' = 0) \<and>
           new_papers r = 1 \<and> new_edges r = 1"
    using repeated_neighbour_completed [OF run ok f twice]
    by (simp add: payload_def entry_def neighbour_ids_def initial_state_def contains_def
        numeral_2_eq_2)
  then show ?thesis using run ok by blast
qed

text \<open>
  Claim C10 asks this of every call: an identifier that occurs twice in a list of the
  provider is appended twice. The loops index \<open>papers_db\<close> with the requested identifier,
  while the main paper is stored under the \<open>paperId\<close> of the payload. When the provider
  answers the request for \<open>arXiv:1\<close> with the payload of \<open>P\<close>, whose reference list is
  \<open>[N, N]\<close>, the first \<open>N\<close> is appended, the edge is added, and
  \<open>papers_db[paper_id]\<close> raises \<open>KeyError\<close>: the second \<open>N\<close> is never reached, and
  \<open>references\<close> of \<open>P\<close> is left as \<open>[N]\<close>.
\<close>

theorem twice_listed_neighbour_key_error:
  "fst (process_main_paper (always (payload ''P'' [''N'', ''N''] [])) ''arXiv:1'' initial_state)
     = Inl (KeyError ''arXiv:1'') \<and>
   map_option references
     (papers_db (snd (process_main_paper (always (payload ''P'' [''N'', ''N''] [])) ''arXiv:1''
                        initial_state)) ''P'')
     = Some [''N''] \<and>
   count_list (neighbour_ids (list_or_empty (json_references (payload ''P'' [''N'', ''N''] [])))) ''N''
     = 2"
proof -
  have a: "fst (process_main_paper (always (payload ''P'' [''N'', ''N''] [])) ''arXiv:1'' initial_state)
     = Inl (KeyError ''arXiv:1'')"
    by (simp add: eval)
  have b: "map_option references
     (papers_db (snd (process_main_paper (always (payload ''P'' [''N'', ''N''] [])) ''arXiv:1''
                        initial_state)) ''P'')
     = Some [''N'']"
    by (simp add: eval)
  have c: "count_list (neighbour_ids (list_or_empty (json_references (payload ''P'' [''N'', ''N''] [])))) ''N''
     = 2"
    by (simp add: payload_def entry_def neighbour_ids_def)
  show ?thesis using a b c by simp
qed

end
